theory Spec2Isabelle
  imports Complex_Main "HOL-Library.AList"
begin

section \<open>Python values shared by both modules\<close>

text \<open>
  The exceptions the two modules raise, catch or let through. \<open>KeyboardInterrupt\<close> and
  \<open>SystemExit\<close> derive from \<open>BaseException\<close> only, so a clause \<open>except Exception\<close>
  does not catch them; every other constructor is a subclass of \<open>Exception\<close>.
  \<open>OtherException\<close> stands for any exception class that is a subclass of \<open>Exception\<close>
  but of none of the classes named in an \<open>except\<close> clause of the source.
  The string is the text that \<open>str(e)\<close> gives.
\<close>

datatype exc =
    ValueError string
  | OverflowError string
  | OSError string
  | DuplicateKeyError string
  | WriteConcernError string
  | ConnectionFailure string
  | OtherException string
  | KeyboardInterrupt
  | SystemExit

fun is_Exception :: "exc \<Rightarrow> bool" where
  "is_Exception KeyboardInterrupt = False"
| "is_Exception SystemExit = False"
| "is_Exception _ = True"

fun str_exc :: "exc \<Rightarrow> string" where
  "str_exc (ValueError m) = m"
| "str_exc (OverflowError m) = m"
| "str_exc (OSError m) = m"
| "str_exc (DuplicateKeyError m) = m"
| "str_exc (WriteConcernError m) = m"
| "str_exc (ConnectionFailure m) = m"
| "str_exc (OtherException m) = m"
| "str_exc KeyboardInterrupt = []"
| "str_exc SystemExit = []"

text \<open>Logging levels of the \<open>logging\<close> module.\<close>

definition DEBUG :: nat where "DEBUG = 10"
definition INFO :: nat where "INFO = 20"
definition WARNING :: nat where "WARNING = 30"
definition ERROR :: nat where "ERROR = 40"
definition CRITICAL :: nat where "CRITICAL = 50"

definition LOG_LEVEL :: nat where "LOG_LEVEL = INFO"

text \<open>
  A call \<open>logger.<level>(msg)\<close> on the logger that \<open>setup_logger\<close> configured: the
  record reaches the handlers when its level is at least \<open>LOG_LEVEL\<close>.
\<close>

definition emit :: "nat \<Rightarrow> string \<Rightarrow> (nat \<times> string) list \<Rightarrow> (nat \<times> string) list" where
  "emit lvl msg tr = (if LOG_LEVEL \<le> lvl then tr @ [(lvl, msg)] else tr)"

text \<open>Decimal text of an integer, as an f-string prints it.\<close>

fun str_nat :: "nat \<Rightarrow> string" where
  "str_nat n = (if n < 10 then [char_of (48 + n)]
                else str_nat (n div 10) @ [char_of (48 + n mod 10)])"

declare str_nat.simps [simp del]

definition str_int :: "int \<Rightarrow> string" where
  "str_int i = (if i < 0 then CHR ''-'' # str_nat (nat (- i)) else str_nat (nat i))"

definition endswith :: "string \<Rightarrow> string \<Rightarrow> bool" where
  "endswith s suf = (length suf \<le> length s \<and> drop (length s - length suf) s = suf)"

section \<open>Log file lifecycle: \<open>logger_utility.py\<close>\<close>

text \<open>
  A \<open>datetime\<close> is counted in microseconds since \<open>datetime.min\<close> (0001-01-01 00:00);
  \<open>datetime.max\<close> is the last microsecond of 9999-12-31, day number 3652059.

  A directory is an association list from names to files, in the order \<open>os.listdir\<close>
  returns them. What the operating system answers for one file is part of the file:
  \<open>getmtime\<close> is the result of
  \<open>datetime.fromtimestamp(os.path.getmtime(filepath))\<close>, the text of the raised error or
  the time; \<open>move\<close> is the text of the error \<open>shutil.move\<close> raises for this file, if
  it raises. The entries are regular files; moving onto an existing name replaces it.
  Console output (\<open>print\<close>) and logger records are kept as two traces; what a
  handler of the logger writes into the day's file is not part of \<open>content\<close>.
\<close>

record log_file =
  content :: string
  getmtime :: "string + int"
  move :: "string option"

record fs =
  log_dir :: "(string \<times> log_file) list"
  archive_dir :: "(string \<times> log_file) list"
  printed :: "string list"
  logged :: "(nat \<times> string) list"

definition LOG_FILENAME :: "string \<Rightarrow> string" where
  \<comment> \<open>the argument is \<open>datetime.now().strftime('%Y-%m-%d')\<close> at import time\<close>
  "LOG_FILENAME today = ''simulator_'' @ today @ ''.log''"

definition datetime_max :: int where
  "datetime_max = 3652059 * 86400000000 - 1"

definition cutoff_date :: "int \<Rightarrow> int \<Rightarrow> exc + int" where
  \<comment> \<open>\<open>datetime.now() - timedelta(days=days_to_keep)\<close>\<close>
  "cutoff_date now days_to_keep =
     (if days_to_keep < - 999999999 \<or> 999999999 < days_to_keep
      then Inl (OverflowError (''days='' @ str_int days_to_keep @ ''; must have magnitude <= 999999999''))
      else let c = now - days_to_keep * 86400000000
           in if c < 0 \<or> datetime_max < c
              then Inl (OverflowError ''date value out of range'')
              else Inr c)"

definition cleanup_error :: "string \<Rightarrow> string \<Rightarrow> fs \<Rightarrow> fs" where
  "cleanup_error filename e s =
     s\<lparr>logged := emit ERROR (''Error during log cleanup for '' @ filename @ '': '' @ e) (logged s)\<rparr>"

text \<open>
  The body of the \<open>for\<close> loop for one name of the listing. A name of the listing that
  is no longer in the directory makes \<open>os.path.getmtime\<close> raise, which the
  \<open>except\<close> clause logs.
\<close>

definition archive_step :: "string \<Rightarrow> int \<Rightarrow> string \<Rightarrow> fs \<Rightarrow> fs" where
  "archive_step log_filename cutoff filename s =
     (if endswith filename ''.log'' then
        if filename = log_filename then s
        else
          (case map_of (log_dir s) filename of
             None \<Rightarrow> cleanup_error filename ''[Errno 2] No such file or directory'' s
           | Some f \<Rightarrow>
               (case getmtime f of
                  Inl e \<Rightarrow> cleanup_error filename e s
                | Inr file_time \<Rightarrow>
                    if file_time < cutoff then
                      (case move f of
                         Some e \<Rightarrow> cleanup_error filename e s
                       | None \<Rightarrow>
                           s\<lparr>log_dir := AList.delete filename (log_dir s),
                             archive_dir := AList.update filename f (archive_dir s),
                             printed := printed s @ [''Archived old log file: '' @ filename]\<rparr>)
                    else s))
      else s)"

text \<open>
  \<open>cleanup_old_logs(days_to_keep)\<close> at clock reading \<open>now\<close>: the exception that leaves
  the call, if any, and the state after it.
\<close>

definition cleanup_old_logs :: "int \<Rightarrow> string \<Rightarrow> int \<Rightarrow> fs \<Rightarrow> exc option \<times> fs" where
  "cleanup_old_logs now log_filename days_to_keep s =
     (case cutoff_date now days_to_keep of
        Inl e \<Rightarrow> (Some e, s)
      | Inr cutoff \<Rightarrow>
          (None, fold (archive_step log_filename cutoff) (map fst (log_dir s)) s))"

text \<open>
  \<open>setup_logger\<close>: the two \<open>os.makedirs\<close> calls and the opening of the day's file by
  \<open>logging.FileHandler\<close> (append mode: the file is created when it is missing) may raise,
  as the operating system decides; then \<open>cleanup_old_logs()\<close> runs with its default of
  7 days.
\<close>

definition open_append :: "int \<Rightarrow> string \<Rightarrow> fs \<Rightarrow> fs" where
  "open_append now filename s =
     (case map_of (log_dir s) filename of
        Some f \<Rightarrow> s
      | None \<Rightarrow> s\<lparr>log_dir := log_dir s @ [(filename, \<lparr>content = [], getmtime = Inr now, move = None\<rparr>)]\<rparr>)"

definition setup_logger ::
  "exc option \<Rightarrow> exc option \<Rightarrow> int \<Rightarrow> string \<Rightarrow> fs \<Rightarrow> exc option \<times> fs" where
  "setup_logger makedirs_raises open_raises now log_filename s =
     (case makedirs_raises of
        Some e \<Rightarrow> (Some e, s)
      | None \<Rightarrow>
          (case open_raises of
             Some e \<Rightarrow> (Some e, s)
           | None \<Rightarrow> cleanup_old_logs now log_filename 7 (open_append now log_filename s)))"

section \<open>The simulator: \<open>Simulator.py\<close>\<close>

subsection \<open>\<open>int()\<close> on a string\<close>

text \<open>
  The built-in \<open>int(s)\<close> for a string of code points below 256, base 10, as CPython
  parses it: white space around the literal is skipped, one sign is allowed, digits may be
  separated by single underscores, and a literal of more than \<open>max_str_digits\<close> digits
  is refused. \<open>None\<close> is \<open>ValueError\<close>.
\<close>

definition is_space :: "char \<Rightarrow> bool" where
  "is_space c = (of_char c \<in> set [9, 10, 11, 12, 13, 32, 133, 160 :: nat])"

definition is_digit :: "char \<Rightarrow> bool" where
  "is_digit c = (48 \<le> (of_char c :: nat) \<and> (of_char c :: nat) \<le> 57)"

definition max_str_digits :: nat where
  "max_str_digits = 4300"

fun scan_digits :: "char \<Rightarrow> nat list \<Rightarrow> string \<Rightarrow> (char \<times> nat list \<times> string) option" where
  "scan_digits prev ds [] = Some (prev, ds, [])"
| "scan_digits prev ds (c # cs) =
     (if c = CHR ''_'' then (if prev = CHR ''_'' then None else scan_digits c ds cs)
      else if is_digit c then scan_digits c (ds @ [of_char c - 48]) cs
      else Some (prev, ds, c # cs))"

definition py_int :: "string \<Rightarrow> int option" where
  "py_int s =
     (let s1 = dropWhile is_space s;
          (sign, s2) = (case s1 of
                          c # r \<Rightarrow> if c = CHR ''+'' then (1, r)
                                   else if c = CHR ''-'' then (- 1, r)
                                   else (1, s1)
                        | [] \<Rightarrow> (1 :: int, s1))
      in case s2 of
           [] \<Rightarrow> None
         | c # r \<Rightarrow>
             if c = CHR ''_'' then None
             else
               (case scan_digits (CHR 0x00) [] s2 of
                  None \<Rightarrow> None
                | Some (prev, ds, rest) \<Rightarrow>
                    if prev = CHR ''_'' then None
                    else if max_str_digits < length ds then None
                    else if ds = [] then None
                    else if dropWhile is_space rest \<noteq> [] then None
                    else Some (sign * int (foldl (\<lambda>a d. 10 * a + d) 0 ds))))"

subsection \<open>Configuration\<close>

text \<open>
  \<open>environ\<close> is \<open>os.environ\<close> after \<open>load_dotenv()\<close>. The logger is the global one
  that \<open>__main__\<close> sets before any call; its records are the trace that is passed along.
\<close>

definition load_configuration ::
  "(string \<rightharpoonup> string) \<Rightarrow> (nat \<times> string) list \<Rightarrow>
   (exc + string \<times> int \<times> string) \<times> (nat \<times> string) list" where
  "load_configuration environ tr =
     (let mongo_uri = environ ''MONGO_URI'';
          db_name = (case environ ''MONGO_DB_NAME'' of
                       None \<Rightarrow> ''insurance-pipeline''
                     | Some d \<Rightarrow> d);
          (sleep_time, tr1) =
            (case environ ''SLEEP_TIME'' of
               None \<Rightarrow> (5, tr)
             | Some v \<Rightarrow>
                 (case py_int v of
                    Some n \<Rightarrow> (n, tr)
                  | None \<Rightarrow>
                      (5, emit WARNING
                            ''SLEEP_TIME in .env is not an integer. Defaulting to 5 seconds.'' tr)));
          not_set =
            (Inl (ValueError ''MONGO_URI environment variable is not set.''),
             emit CRITICAL
               ''MONGO_URI environment variable is not set. Please check your .env file.'' tr1)
      in case mongo_uri of
           None \<Rightarrow> not_set
         | Some uri \<Rightarrow>
             if uri = [] then not_set
             else (Inr (uri, sleep_time, db_name),
                   emit DEBUG
                     (''DB Name: '' @ db_name @ '', Sleep Time: '' @ str_int sleep_time @ ''s'')
                     (emit INFO ''Configuration loaded successfully.'' tr1)))"

subsection \<open>Documents and the store\<close>

text \<open>
  The two dictionaries have fixed keys and are records here; the claim's key
  \<open>customer_id\<close> is the field \<open>claim_customer_id\<close>, since a field name is used once.
  A Python float is the rational number it stands for. The arithmetic on floats is the
  exact one: the rounding of an intermediate result to the nearest double is left out.
\<close>

record customer =
  customer_id :: string
  name :: string
  state :: string
  policy_type :: string
  timestamp :: int

record claim =
  claim_id :: string
  claim_customer_id :: string
  date :: string
  amount :: rat
  claim_type :: string
  is_fraud :: bool
  status :: string

text \<open>
  The random source. Each function of the module \<open>random\<close> takes the number that the
  generator draws for it: \<open>random()\<close> is a multiple of \<open>2\<^sup>-\<^sup>5\<^sup>3\<close> below 1,
  \<open>uniform(a, b)\<close> is \<open>a + (b - a) * random()\<close>, \<open>randint(a, b)\<close> is \<open>a\<close> plus a
  number below \<open>b + 1 - a\<close>, and \<open>choice\<close> takes the element at an index below the
  length.
\<close>

definition random_py :: "nat \<Rightarrow> rat" where
  "random_py k = of_nat (k mod 2 ^ 53) / 2 ^ 53"

definition uniform :: "rat \<Rightarrow> rat \<Rightarrow> nat \<Rightarrow> rat" where
  "uniform a b k = a + (b - a) * random_py k"

definition randint :: "int \<Rightarrow> int \<Rightarrow> nat \<Rightarrow> int" where
  "randint a b k = a + int k mod (b + 1 - a)"

definition choice :: "'a list \<Rightarrow> nat \<Rightarrow> 'a" where
  \<comment> \<open>\<open>random.choice\<close> on a non-empty list: the element at a drawn index below the length\<close>
  "choice xs k = xs ! (k mod length xs)"

text \<open>
  The built-in \<open>round(x, ndigits)\<close> for a float and \<open>ndigits\<close> not below 0: the
  multiple of \<open>10\<^sup>-\<^sup>n\<close> closest to \<open>x\<close>, and the even one if two are equally close.
\<close>

definition round_half_even :: "rat \<Rightarrow> int" where
  "round_half_even y =
     (let f = \<lfloor>y\<rfloor>; d = y - of_int f
      in if d < 1 / 2 then f
         else if 1 / 2 < d then f + 1
         else if even f then f else f + 1)"

definition py_round :: "rat \<Rightarrow> nat \<Rightarrow> rat" where
  "py_round x ndigits = of_int (round_half_even (x * 10 ^ ndigits)) / 10 ^ ndigits"

text \<open>
  The numbers and texts drawn in one call of \<open>generate_insurance_data\<close>, in the order
  of the calls: for \<open>random.randint(100, 999)\<close>, \<open>fake.name()\<close>,
  \<open>fake.state_abbr()\<close>, \<open>random.choice\<close>, \<open>datetime.now()\<close>,
  \<open>random.randint(1000, 9999)\<close>, the ISO text of \<open>fake.date_between(...)\<close>,
  \<open>random.uniform(100, 20000)\<close>, \<open>random.choice\<close> and \<open>random.random()\<close>.
\<close>

record rnd =
  r_customer :: nat
  r_name :: string
  r_state :: string
  r_policy :: nat
  r_now :: int
  r_claim :: nat
  r_date :: string
  r_amount :: nat
  r_claim_type :: nat
  r_fraud :: nat

definition generate_insurance_data ::
  "rnd \<Rightarrow> (nat \<times> string) list \<Rightarrow> (customer \<times> claim) \<times> (nat \<times> string) list" where
  "generate_insurance_data r tr =
     (let cid = ''CUST-'' @ str_int (randint 100 999 (r_customer r));
          cust = \<lparr>customer_id = cid,
                  name = r_name r,
                  state = r_state r,
                  policy_type = choice [''Auto'', ''Home'', ''Health''] (r_policy r),
                  timestamp = r_now r\<rparr>;
          clm = \<lparr>claim_id = ''CLM-'' @ str_int (randint 1000 9999 (r_claim r)),
                 claim_customer_id = cid,
                 date = r_date r,
                 amount = py_round (uniform 100 20000 (r_amount r)) 2,
                 claim_type = choice [''Accident'', ''Theft'', ''Fire'', ''Liability''] (r_claim_type r),
                 is_fraud = (random_py (r_fraud r) < 5 / 100),
                 status = ''Submitted''\<rparr>
      in ((cust, clm),
          emit DEBUG (''Generated data for CUST:'' @ cid @ '' and CLM:'' @ claim_id clm) tr))"

text \<open>
  The store and what the process has done to the outside: the two collections, the
  logger's records, and the connection strings a client was opened with.
\<close>

record sys =
  customers_col :: "customer list"
  claims_col :: "claim list"
  trace :: "(nat \<times> string) list"
  connects :: "string list"

definition logger :: "nat \<Rightarrow> string \<Rightarrow> sys \<Rightarrow> sys" where
  "logger lvl msg st = st\<lparr>trace := emit lvl msg (trace st)\<rparr>"

text \<open>
  What the store answers to one \<open>insert_one\<close>: whether the document is in the
  collection afterwards, and the exception the call raises, if any.
\<close>

record answer =
  stored :: bool
  raised :: "exc option"

definition insert_one :: "'d list \<Rightarrow> 'd \<Rightarrow> answer \<Rightarrow> 'd list" where
  "insert_one col doc a = (if stored a then col @ [doc] else col)"

subsection \<open>Connecting\<close>

definition setup_mongo_connection ::
  "exc option \<Rightarrow> string \<Rightarrow> string \<Rightarrow> sys \<Rightarrow> exc option \<times> sys" where
  "setup_mongo_connection connect_raises mongo_uri db_name st =
     (let st1 = (logger INFO ''Attempting to connect to MongoDB Atlas...'' st)
                  \<lparr>connects := connects st @ [mongo_uri]\<rparr>
      in case connect_raises of
           None \<Rightarrow> (None, logger INFO ''Successfully connected to MongoDB Atlas.'' st1)
         | Some e \<Rightarrow>
             (case e of
                ConnectionFailure m \<Rightarrow>
                  (Some e,
                   logger CRITICAL
                     (''Connection error: Could not connect to MongoDB Atlas. Check your MONGO_URI and network status. Error: ''
                        @ str_exc e) st1)
              | _ \<Rightarrow>
                  if is_Exception e
                  then (Some e,
                        logger CRITICAL
                          (''An unexpected critical error occurred during MongoDB connection: ''
                             @ str_exc e) st1)
                  else (Some e, st1)))"

subsection \<open>The loop\<close>

text \<open>
  What the outside world does in one iteration: the values drawn, the store's answers to
  the two inserts and the two counts, and the exception that the wait of
  \<open>time.sleep\<close> raises, if any: an interrupt that arrives, or the \<open>OSError\<close> of an
  operating system that refuses the length. An answer is read only when the call is
  reached.
\<close>

record tick =
  draws :: "rnd"
  customer_insert :: answer
  claim_insert :: answer
  customer_count_raises :: "exc option"
  claim_count_raises :: "exc option"
  sleep_raises :: "exc option"

text \<open>The body of the inner \<open>try\<close>: the exception it raises, if any, and the state.\<close>

definition insert_block :: "tick \<Rightarrow> customer \<Rightarrow> claim \<Rightarrow> sys \<Rightarrow> exc option \<times> sys" where
  "insert_block t cust clm st =
     (let st1 = st\<lparr>customers_col := insert_one (customers_col st) cust (customer_insert t)\<rparr>
      in case raised (customer_insert t) of
           Some e \<Rightarrow> (Some e, st1)
         | None \<Rightarrow>
             (let st2 = st1\<lparr>claims_col := insert_one (claims_col st1) clm (claim_insert t)\<rparr>
              in case raised (claim_insert t) of
                   Some e \<Rightarrow> (Some e, st2)
                 | None \<Rightarrow>
                     (let st3 = logger INFO
                                  (''-> Inserted claim '' @ claim_id clm @ '' for customer ''
                                     @ customer_id cust @ '' ('' @ policy_type cust @ '')'') st2
                      in case customer_count_raises t of
                           Some e \<Rightarrow> (Some e, st3)
                         | None \<Rightarrow>
                             (let customer_count = int (length (customers_col st3))
                              in case claim_count_raises t of
                                   Some e \<Rightarrow> (Some e, st3)
                                 | None \<Rightarrow>
                                     (let claim_count = int (length (claims_col st3))
                                      in (None,
                                          logger INFO (''Claim Count == '' @ str_int claim_count)
                                            (logger INFO
                                               (''Customer Count == '' @ str_int customer_count)
                                               st3)))))))"

text \<open>The inner \<open>try\<close> statement with its three \<open>except\<close> clauses, in their order.\<close>

definition try_insert :: "tick \<Rightarrow> customer \<Rightarrow> claim \<Rightarrow> sys \<Rightarrow> exc option \<times> sys" where
  "try_insert t cust clm st =
     (case insert_block t cust clm st of
        (None, st1) \<Rightarrow> (None, st1)
      | (Some e, st1) \<Rightarrow>
          (case e of
             DuplicateKeyError m \<Rightarrow>
               (None,
                logger WARNING
                  (''Duplicate key error detected (likely customer ID collision). Skipping insertion. Error: ''
                     @ str_exc e) st1)
           | WriteConcernError m \<Rightarrow>
               (None,
                logger ERROR
                  (''MongoDB Write Concern Error: Data insertion might not be fully confirmed. Error: ''
                     @ str_exc e) st1)
           | _ \<Rightarrow>
               if is_Exception e
               then (None,
                     logger ERROR
                       (''Failed to insert data into MongoDB due to an unknown error: ''
                          @ str_exc e) st1)
               else (Some e, st1)))"

text \<open>
  \<open>time.sleep(sleep_time)\<close> for an integer: the length is converted to nanoseconds in
  a signed 64-bit number, which overflows beyond 9223372036 seconds; then a negative
  length is refused; then the process waits, and \<open>wait\<close> is the exception that the wait
  raises, if any.
\<close>

definition sleep :: "int \<Rightarrow> exc option \<Rightarrow> exc option" where
  "sleep sleep_time wait =
     (if sleep_time < - 9223372036 \<or> 9223372036 < sleep_time
      then Some (OverflowError ''timestamp too large to convert to C _PyTime_t'')
      else if sleep_time < 0 then Some (ValueError ''sleep length must be non-negative'')
      else wait)"

text \<open>One iteration of \<open>while True\<close>: the exception that leaves it, if any.\<close>

definition tick_body :: "int \<Rightarrow> tick \<Rightarrow> sys \<Rightarrow> exc option \<times> sys" where
  "tick_body sleep_time t st =
     (case generate_insurance_data (draws t) (trace st) of
        ((cust, clm), tr) \<Rightarrow>
          (case try_insert t cust clm (st\<lparr>trace := tr\<rparr>) of
             (Some e, st1) \<Rightarrow> (Some e, st1)
           | (None, st1) \<Rightarrow> (sleep sleep_time (sleep_raises t), st1)))"

text \<open>
  The loop has no exit of its own. It is run against a finite script of iterations;
  \<open>None\<close> says that the script is used up and the loop is still running.
\<close>

fun while_true :: "int \<Rightarrow> tick list \<Rightarrow> sys \<Rightarrow> exc option \<times> sys" where
  "while_true sleep_time [] st = (None, st)"
| "while_true sleep_time (t # ts) st =
     (case tick_body sleep_time t st of
        (Some e, st1) \<Rightarrow> (Some e, st1)
      | (None, st1) \<Rightarrow> while_true sleep_time ts st1)"

datatype outcome = Looping | Returned | Raised exc

definition run_simulation :: "int \<Rightarrow> tick list \<Rightarrow> sys \<Rightarrow> outcome \<times> sys" where
  "run_simulation sleep_time ts st =
     (case while_true sleep_time ts
             (logger INFO
                (''Starting real-time simulation. Inserting data every '' @ str_int sleep_time
                   @ '' seconds...'') st) of
        (None, st1) \<Rightarrow> (Looping, st1)
      | (Some e, st1) \<Rightarrow>
          (case e of
             KeyboardInterrupt \<Rightarrow>
               (Returned, logger INFO ''Simulation stopped by user (Ctrl+C). Exiting.'' st1)
           | _ \<Rightarrow>
               if is_Exception e
               then (Returned,
                     logger CRITICAL
                       (''A critical error occurred during the simulation loop: '' @ str_exc e) st1)
               else (Raised e, st1)))"

subsection \<open>The program\<close>

text \<open>Everything the run depends on.\<close>

record world =
  environ :: "string \<rightharpoonup> string"
  files :: fs
  clock :: int
  today :: string
  makedirs_raises :: "exc option"
  open_raises :: "exc option"
  connect_raises :: "exc option"
  db_customers :: "customer list"
  db_claims :: "claim list"
  ticks :: "tick list"

text \<open>The body of the \<open>try\<close> of \<open>__main__\<close>.\<close>

definition startup :: "world \<Rightarrow> sys \<Rightarrow> outcome \<times> sys" where
  "startup w st =
     (case load_configuration (environ w) (trace st) of
        (Inl e, tr) \<Rightarrow> (Raised e, st\<lparr>trace := tr\<rparr>)
      | (Inr (mongo_uri, sleep_time, db_name), tr) \<Rightarrow>
          (case setup_mongo_connection (connect_raises w) mongo_uri db_name (st\<lparr>trace := tr\<rparr>) of
             (Some e, st1) \<Rightarrow> (Raised e, st1)
           | (None, st1) \<Rightarrow> run_simulation sleep_time (ticks w) st1))"

definition banner_start :: string where
  "banner_start = ''--- Insurance Data Simulator Application Starting ---''"

definition banner_end :: string where
  "banner_end = ''--- Insurance Data Simulator Application Terminated ---''"

text \<open>
  \<open>__main__\<close>: how the process ends (\<open>Returned\<close>: it runs off the end of the script;
  \<open>Raised\<close>: an exception leaves it; \<open>Looping\<close>: it is still in the loop), the
  directories, and the store with the logger's records.
\<close>

definition main :: "world \<Rightarrow> outcome \<times> fs \<times> sys" where
  "main w =
     (case setup_logger (makedirs_raises w) (open_raises w) (clock w)
             (LOG_FILENAME (today w)) (files w) of
        (Some e, s) \<Rightarrow>
          (Raised e, s,
           \<lparr>customers_col = db_customers w, claims_col = db_claims w,
            trace = logged s, connects = []\<rparr>)
      | (None, s) \<Rightarrow>
          (case startup w
                  (logger INFO banner_start
                     \<lparr>customers_col = db_customers w, claims_col = db_claims w,
                      trace = logged s, connects = []\<rparr>) of
             (Looping, st) \<Rightarrow> (Looping, s, st)
           | (Returned, st) \<Rightarrow> (Returned, s, logger INFO banner_end st)
           | (Raised e, st) \<Rightarrow>
               (case e of
                  ValueError m \<Rightarrow>
                    (Returned, s,
                     logger INFO banner_end
                       (logger CRITICAL
                          (''Application terminated due to Configuration Error: '' @ str_exc e) st))
                | ConnectionFailure m \<Rightarrow>
                    (Returned, s,
                     logger INFO banner_end
                       (logger CRITICAL
                          ''Application terminated due to MongoDB connection failure.'' st))
                | _ \<Rightarrow>
                    if is_Exception e
                    then (Returned, s,
                          logger INFO banner_end
                            (logger CRITICAL
                               (''A fatal and unhandled error occurred during application setup: ''
                                  @ str_exc e) st))
                    else (Raised e, s, logger INFO banner_end st))))"

section \<open>Auxiliary notions and sample inputs\<close>

text \<open>
  \<open>stale a c l n\<close>: in directory \<open>l\<close>, the loop body moves the file named \<open>n\<close> when
  the day's file is \<open>a\<close> and the cutoff is \<open>c\<close>.
\<close>

definition stale :: "string \<Rightarrow> int \<Rightarrow> (string \<times> log_file) list \<Rightarrow> string \<Rightarrow> bool" where
  "stale a c l n =
     (endswith n ''.log'' \<and> n \<noteq> a \<and>
      (case map_of l n of
         None \<Rightarrow> False
       | Some f \<Rightarrow> (case getmtime f of Inl e \<Rightarrow> False | Inr t \<Rightarrow> t < c \<and> move f = None)))"


definition dup_msg :: "string \<Rightarrow> string" where
  "dup_msg m =
     ''Duplicate key error detected (likely customer ID collision). Skipping insertion. Error: '' @ m"

text \<open>
  The clock reading 2026-01-01 12:00 and a directory with three files that were last
  written at 2025-12-01 12:00: the day's own file (backdated), an older log, and a text
  file.
\<close>

definition ex_now :: int where
  "ex_now = 63902865600000000"

definition ex_old :: log_file where
  "ex_old = \<lparr>content = ''old'', getmtime = Inr 63900187200000000, move = None\<rparr>"

definition ex_fs :: fs where
  "ex_fs = \<lparr>log_dir = [(''simulator_2026-01-01.log'', ex_old),
                        (''simulator_2025-12-01.log'', ex_old),
                        (''notes.txt'', ex_old)],
            archive_dir = [], printed = [], logged = []\<rparr>"

definition ex_fs_archived :: fs where
  "ex_fs_archived =
     \<lparr>log_dir = [(''simulator_2026-01-01.log'', ex_old), (''notes.txt'', ex_old)],
      archive_dir = [(''simulator_2025-12-01.log'', ex_old)],
      printed = [''Archived old log file: simulator_2025-12-01.log''],
      logged = []\<rparr>"

definition ex_fs_txt :: fs where
  "ex_fs_txt = \<lparr>log_dir = [(''notes.txt'', ex_old)], archive_dir = [], printed = [], logged = []\<rparr>"

text \<open>
  A log that was last written at 2025-12-25 12:00, to the microsecond seven days before
  the clock reading, and a directory that holds it.
\<close>

definition ex_edge :: log_file where
  "ex_edge = \<lparr>content = ''edge'', getmtime = Inr 63902260800000000, move = None\<rparr>"

definition ex_fs_edge :: fs where
  "ex_fs_edge = \<lparr>log_dir = [(''simulator_2025-12-25.log'', ex_edge)],
                 archive_dir = [], printed = [], logged = []\<rparr>"

definition ex_fs_edge_archived :: fs where
  "ex_fs_edge_archived =
     \<lparr>log_dir = [],
      archive_dir = [(''simulator_2025-12-25.log'', ex_edge)],
      printed = [''Archived old log file: simulator_2025-12-25.log''],
      logged = []\<rparr>"

text \<open>
  Sample environments and iterations for the simulator. The store starts empty. In the
  first iteration the store refuses the claim with a duplicate key after it has taken the
  customer; in the second both inserts succeed and an interrupt arrives during the sleep;
  in the third nothing goes wrong.
\<close>

definition ex_env :: "string \<rightharpoonup> string" where
  "ex_env = [''MONGO_URI'' \<mapsto> ''mongodb://localhost'', ''SLEEP_TIME'' \<mapsto> ''0'']"

definition ex_env_negative :: "string \<rightharpoonup> string" where
  "ex_env_negative = [''MONGO_URI'' \<mapsto> ''mongodb://localhost'', ''SLEEP_TIME'' \<mapsto> ''-3'']"

definition ex_env_abc :: "string \<rightharpoonup> string" where
  "ex_env_abc = [''MONGO_URI'' \<mapsto> ''mongodb://localhost'', ''SLEEP_TIME'' \<mapsto> ''abc'']"

definition ex_env_no_uri :: "string \<rightharpoonup> string" where
  "ex_env_no_uri = [''SLEEP_TIME'' \<mapsto> ''0'']"

definition ex_draws :: "rnd" where
  "ex_draws = \<lparr>r_customer = 23, r_name = ''Ann Lee'', r_state = ''NY'', r_policy = 4,
               r_now = 63902865600000000, r_claim = 3567, r_date = ''2025-06-30'',
               r_amount = 562949953421312, r_claim_type = 2,
               r_fraud = 4503599627370496\<rparr>"

definition ex_customer :: customer where
  "ex_customer = \<lparr>customer_id = ''CUST-123'', name = ''Ann Lee'', state = ''NY'',
                  policy_type = ''Home'', timestamp = 63902865600000000\<rparr>"

definition ex_tick_dup :: "tick" where
  "ex_tick_dup = \<lparr>draws = ex_draws,
                  customer_insert = \<lparr>stored = True, raised = None\<rparr>,
                  claim_insert = \<lparr>stored = False, raised = Some (DuplicateKeyError ''E11000'')\<rparr>,
                  customer_count_raises = None, claim_count_raises = None,
                  sleep_raises = None\<rparr>"

definition ex_tick_interrupt :: "tick" where
  "ex_tick_interrupt = \<lparr>draws = ex_draws,
                  customer_insert = \<lparr>stored = True, raised = None\<rparr>,
                  claim_insert = \<lparr>stored = True, raised = None\<rparr>,
                  customer_count_raises = None, claim_count_raises = None,
                  sleep_raises = Some KeyboardInterrupt\<rparr>"

definition ex_tick_ok :: "tick" where
  "ex_tick_ok = \<lparr>draws = ex_draws,
                 customer_insert = \<lparr>stored = True, raised = None\<rparr>,
                 claim_insert = \<lparr>stored = True, raised = None\<rparr>,
                 customer_count_raises = None, claim_count_raises = None,
                 sleep_raises = None\<rparr>"


definition ex_sys :: "sys" where
  "ex_sys = \<lparr>customers_col = [], claims_col = [], trace = [], connects = []\<rparr>"

definition ex_world :: "world" where
  "ex_world = \<lparr>environ = ex_env, files = ex_fs, clock = ex_now, today = ''2026-01-01'',
               makedirs_raises = None, open_raises = None, connect_raises = None,
               db_customers = [], db_claims = [],
               ticks = [ex_tick_dup, ex_tick_interrupt]\<rparr>"

definition ex_world_no_uri :: "world" where
  "ex_world_no_uri = ex_world\<lparr>environ := ex_env_no_uri\<rparr>"

definition ex_world_no_dir :: "world" where
  "ex_world_no_dir =
     ex_world\<lparr>makedirs_raises := Some (OSError ''[Errno 13] Permission denied'')\<rparr>"

section \<open>Properties of the log file lifecycle\<close>

lemma cutoff_date_Inr: "cutoff_date now d = Inr c \<Longrightarrow> c = now - d * 86400000000"
  by (simp add: cutoff_date_def Let_def split: if_splits)

lemma cleanup_old_logs_None:
  assumes "cleanup_old_logs now a d s = (None, s')"
  shows "s' = fold (archive_step a (now - d * 86400000000)) (map fst (log_dir s)) s"
proof (cases "cutoff_date now d")
  case (Inl e)
  with assms show ?thesis by (simp add: cleanup_old_logs_def)
next
  case (Inr c)
  with assms cutoff_date_Inr [OF Inr] show ?thesis by (simp add: cleanup_old_logs_def)
qed

subsection \<open>One name of the listing\<close>

lemma step_log_other:
  "filename \<noteq> k \<Longrightarrow> map_of (log_dir (archive_step a c filename s)) k = map_of (log_dir s) k"
  by (simp add: archive_step_def cleanup_error_def split: option.splits sum.splits)

lemma step_arch_other:
  "filename \<noteq> k \<Longrightarrow>
   map_of (archive_dir (archive_step a c filename s)) k = map_of (archive_dir s) k"
  by (simp add: archive_step_def cleanup_error_def AList.update_conv' split: option.splits sum.splits)

lemma step_skipped: "n = a \<or> \<not> endswith n ''.log'' \<Longrightarrow> archive_step a c n s = s"
  by (auto simp: archive_step_def)

lemma step_stale:
  "stale a c (log_dir s) n \<Longrightarrow> map_of (log_dir s) n = Some f \<Longrightarrow>
   archive_step a c n s =
     s\<lparr>log_dir := AList.delete n (log_dir s),
       archive_dir := AList.update n f (archive_dir s),
       printed := printed s @ [''Archived old log file: '' @ n]\<rparr>"
  by (auto simp: archive_step_def stale_def split: option.splits sum.splits)

lemma step_not_stale:
  "\<not> stale a c (log_dir s) n \<Longrightarrow>
   log_dir (archive_step a c n s) = log_dir s \<and>
   archive_dir (archive_step a c n s) = archive_dir s \<and>
   printed (archive_step a c n s) = printed s"
  by (auto simp: archive_step_def stale_def cleanup_error_def split: option.splits sum.splits)

lemma step_log_gone:
  assumes "map_of (log_dir s) n = None"
  shows "map_of (log_dir (archive_step a c k s)) n = None \<and>
         map_of (archive_dir (archive_step a c k s)) n = map_of (archive_dir s) n"
proof (cases "k = n")
  case True
  from assms have "\<not> stale a c (log_dir s) n" by (simp add: stale_def)
  then show ?thesis using True assms step_not_stale [of a c s n] by simp
next
  case False
  then show ?thesis using assms by (simp add: step_log_other step_arch_other)
qed

lemma step_after_not_stale: "\<not> stale a c (log_dir (archive_step a c n s)) n"
proof (cases "stale a c (log_dir s) n")
  case True
  then obtain f where f: "map_of (log_dir s) n = Some f"
    by (auto simp: stale_def split: option.splits)
  show ?thesis by (simp add: step_stale [OF True f] stale_def AList.delete_conv')
next
  case False
  then show ?thesis using step_not_stale [OF False] by simp
qed

lemma step_stale_mono:
  assumes "\<not> stale a c (log_dir s) n"
  shows "\<not> stale a c (log_dir (archive_step a c k s)) n"
proof (cases "k = n")
  case True
  then show ?thesis by (simp add: step_after_not_stale)
next
  case False
  then show ?thesis using assms by (simp add: stale_def step_log_other)
qed

lemma step_keys: "fst ` set (log_dir (archive_step a c k s)) \<subseteq> fst ` set (log_dir s)"
  using AList.dom_delete_subset [of k "log_dir s"]
  by (auto simp: archive_step_def cleanup_error_def split: option.splits sum.splits)

subsection \<open>The whole listing\<close>

lemma fold_untouched:
  assumes "n = a \<or> \<not> endswith n ''.log''"
  shows "map_of (log_dir (fold (archive_step a c) ns s)) n = map_of (log_dir s) n \<and>
         map_of (archive_dir (fold (archive_step a c) ns s)) n = map_of (archive_dir s) n"
proof (induction ns arbitrary: s)
  case Nil
  show ?case by simp
next
  case (Cons k ks)
  show ?case
  proof (cases "k = n")
    case True
    then show ?thesis using Cons.IH [of s] assms by (simp add: step_skipped)
  next
    case False
    then show ?thesis using Cons.IH [of "archive_step a c k s"]
      by (simp add: step_log_other step_arch_other)
  qed
qed

lemma fold_log_gone:
  "map_of (log_dir s) n = None \<Longrightarrow>
   map_of (log_dir (fold (archive_step a c) ns s)) n = None \<and>
   map_of (archive_dir (fold (archive_step a c) ns s)) n = map_of (archive_dir s) n"
proof (induction ns arbitrary: s)
  case Nil
  then show ?case by simp
next
  case (Cons k ks)
  from step_log_gone [OF Cons.prems, of a c k]
  have g: "map_of (log_dir (archive_step a c k s)) n = None"
    and h: "map_of (archive_dir (archive_step a c k s)) n = map_of (archive_dir s) n"
    by simp_all
  from Cons.IH [OF g] h show ?case by simp
qed

lemma fold_moves:
  "n \<in> set ns \<Longrightarrow> stale a c (log_dir s) n \<Longrightarrow> map_of (log_dir s) n = Some f \<Longrightarrow>
   map_of (log_dir (fold (archive_step a c) ns s)) n = None \<and>
   map_of (archive_dir (fold (archive_step a c) ns s)) n = Some f"
proof (induction ns arbitrary: s)
  case Nil
  then show ?case by simp
next
  case (Cons k ks)
  show ?case
  proof (cases "k = n")
    case True
    let ?s = "archive_step a c n s"
    have e: "?s = s\<lparr>log_dir := AList.delete n (log_dir s),
       archive_dir := AList.update n f (archive_dir s),
       printed := printed s @ [''Archived old log file: '' @ n]\<rparr>"
      using step_stale [OF Cons.prems(2,3)] .
    have g: "map_of (log_dir ?s) n = None" by (simp add: e AList.delete_conv')
    have h: "map_of (archive_dir ?s) n = Some f" by (simp add: e AList.update_conv')
    from fold_log_gone [OF g, of a c ks] h True show ?thesis by simp
  next
    case False
    let ?s = "archive_step a c k s"
    have m: "map_of (log_dir ?s) n = map_of (log_dir s) n"
      using False by (simp add: step_log_other)
    have st: "stale a c (log_dir ?s) n" using Cons.prems(2) m by (simp add: stale_def)
    have i: "n \<in> set ks" using Cons.prems(1) False by auto
    from Cons.IH [OF i st] m Cons.prems(3) show ?thesis by simp
  qed
qed

lemma fold_not_stale:
  "(\<forall>n\<in>set ns. \<not> stale a c (log_dir s) n) \<Longrightarrow>
   log_dir (fold (archive_step a c) ns s) = log_dir s \<and>
   archive_dir (fold (archive_step a c) ns s) = archive_dir s \<and>
   printed (fold (archive_step a c) ns s) = printed s"
proof (induction ns arbitrary: s)
  case Nil
  then show ?case by simp
next
  case (Cons k ks)
  have k: "\<not> stale a c (log_dir s) k" using Cons.prems by simp
  note u = step_not_stale [OF k]
  have "\<forall>n\<in>set ks. \<not> stale a c (log_dir (archive_step a c k s)) n"
    using Cons.prems u by simp
  from Cons.IH [OF this] u show ?case by simp
qed

lemma fold_stale_mono:
  "\<not> stale a c (log_dir s) n \<Longrightarrow> \<not> stale a c (log_dir (fold (archive_step a c) ns s)) n"
  by (induction ns arbitrary: s) (simp_all add: step_stale_mono)

lemma fold_after_not_stale:
  "n \<in> set ns \<Longrightarrow> \<not> stale a c (log_dir (fold (archive_step a c) ns s)) n"
proof (induction ns arbitrary: s)
  case Nil
  then show ?case by simp
next
  case (Cons k ks)
  show ?case
  proof (cases "k = n")
    case True
    have "\<not> stale a c (log_dir (archive_step a c n s)) n" by (rule step_after_not_stale)
    from fold_stale_mono [OF this, of ks] True show ?thesis by simp
  next
    case False
    then have "n \<in> set ks" using Cons.prems by auto
    from Cons.IH [OF this] show ?thesis by simp
  qed
qed

lemma fold_keys: "fst ` set (log_dir (fold (archive_step a c) ns s)) \<subseteq> fst ` set (log_dir s)"
proof (induction ns arbitrary: s)
  case Nil
  show ?case by simp
next
  case (Cons k ks)
  from Cons.IH [of "archive_step a c k s"] step_keys [of a c k s] show ?case by auto
qed

lemma fold_idem:
  assumes "s1 = fold (archive_step a c) (map fst (log_dir s)) s"
  shows "log_dir (fold (archive_step a c) (map fst (log_dir s1)) s1) = log_dir s1 \<and>
         archive_dir (fold (archive_step a c) (map fst (log_dir s1)) s1) = archive_dir s1 \<and>
         printed (fold (archive_step a c) (map fst (log_dir s1)) s1) = printed s1"
proof (rule fold_not_stale, rule ballI)
  fix n
  assume "n \<in> set (map fst (log_dir s1))"
  then have "n \<in> set (map fst (log_dir s))"
    using fold_keys [of a c "map fst (log_dir s)" s] assms by auto
  from fold_after_not_stale [OF this] assms show "\<not> stale a c (log_dir s1) n" by simp
qed

lemma step_entries: "set (log_dir (archive_step a c k s)) \<subseteq> set (log_dir s)"
  by (auto simp: archive_step_def cleanup_error_def AList.delete_eq
      split: option.splits sum.splits)

lemma fold_entries: "set (log_dir (fold (archive_step a c) ns s)) \<subseteq> set (log_dir s)"
proof (induction ns arbitrary: s)
  case Nil
  show ?case by simp
next
  case (Cons k ks)
  from Cons.IH [of "archive_step a c k s"] step_entries [of a c k s] show ?case by auto
qed

lemma fold_other_cutoff:
  assumes "s1 = fold (archive_step a c) (map fst (log_dir s)) s"
    and "\<forall>p\<in>set (log_dir s). \<forall>t. getmtime (snd p) = Inr t \<longrightarrow> t < c \<or> c' \<le> t"
  shows "log_dir (fold (archive_step a c') (map fst (log_dir s1)) s1) = log_dir s1 \<and>
         archive_dir (fold (archive_step a c') (map fst (log_dir s1)) s1) = archive_dir s1 \<and>
         printed (fold (archive_step a c') (map fst (log_dir s1)) s1) = printed s1"
proof (rule fold_not_stale, rule ballI)
  fix n
  assume n: "n \<in> set (map fst (log_dir s1))"
  then have "n \<in> set (map fst (log_dir s))"
    using fold_keys [of a c "map fst (log_dir s)" s] assms(1) by auto
  from fold_after_not_stale [OF this] assms(1) have ns: "\<not> stale a c (log_dir s1) n" by simp
  show "\<not> stale a c' (log_dir s1) n"
  proof
    assume st: "stale a c' (log_dir s1) n"
    then obtain f t where m: "map_of (log_dir s1) n = Some f" and g: "getmtime f = Inr t"
      and lt: "t < c'" and mv: "move f = None" and e: "endswith n ''.log''" and na: "n \<noteq> a"
      by (auto simp: stale_def split: option.splits sum.splits)
    from m have "(n, f) \<in> set (log_dir s1)" by (rule map_of_SomeD)
    then have "(n, f) \<in> set (log_dir s)"
      using fold_entries [of a c "map fst (log_dir s)" s] assms(1) by auto
    with assms(2) g have "t < c \<or> c' \<le> t" by fastforce
    with lt have "t < c" by simp
    with m g mv e na have "stale a c (log_dir s1) n" by (simp add: stale_def)
    with ns show False by simp
  qed
qed

lemma cleanup_old_logs_same_clock:
  "log_dir (snd (cleanup_old_logs now a d (snd (cleanup_old_logs now a d s)))) =
     log_dir (snd (cleanup_old_logs now a d s)) \<and>
   archive_dir (snd (cleanup_old_logs now a d (snd (cleanup_old_logs now a d s)))) =
     archive_dir (snd (cleanup_old_logs now a d s)) \<and>
   printed (snd (cleanup_old_logs now a d (snd (cleanup_old_logs now a d s)))) =
     printed (snd (cleanup_old_logs now a d s))"
proof (cases "cutoff_date now d")
  case (Inl e)
  then show ?thesis by (simp add: cleanup_old_logs_def)
next
  case (Inr c)
  from fold_idem [OF refl, of a c s] Inr show ?thesis by (simp add: cleanup_old_logs_def)
qed

lemma cleanup_old_logs_later_clock:
  assumes "fst (cleanup_old_logs now a d s) = None"
    and "\<forall>p\<in>set (log_dir s). \<forall>t. getmtime (snd p) = Inr t \<longrightarrow>
           t < now - d * 86400000000 \<or> now' - d * 86400000000 \<le> t"
  shows "log_dir (snd (cleanup_old_logs now' a d (snd (cleanup_old_logs now a d s)))) =
           log_dir (snd (cleanup_old_logs now a d s)) \<and>
         archive_dir (snd (cleanup_old_logs now' a d (snd (cleanup_old_logs now a d s)))) =
           archive_dir (snd (cleanup_old_logs now a d s)) \<and>
         printed (snd (cleanup_old_logs now' a d (snd (cleanup_old_logs now a d s)))) =
           printed (snd (cleanup_old_logs now a d s))"
proof -
  let ?c = "now - d * 86400000000"
  let ?s1 = "fold (archive_step a ?c) (map fst (log_dir s)) s"
  have "cleanup_old_logs now a d s = (None, snd (cleanup_old_logs now a d s))"
    using assms(1) by (metis prod.collapse)
  from cleanup_old_logs_None [OF this] have s1: "snd (cleanup_old_logs now a d s) = ?s1" .
  show ?thesis
  proof (cases "cutoff_date now' d")
    case (Inl e)
    then show ?thesis by (simp add: cleanup_old_logs_def)
  next
    case (Inr c')
    from cutoff_date_Inr [OF Inr] have c': "c' = now' - d * 86400000000" .
    from fold_other_cutoff [where s = s and a = a and c = ?c and c' = c', OF refl] assms(2) c'
    have "log_dir (fold (archive_step a c') (map fst (log_dir ?s1)) ?s1) = log_dir ?s1 \<and>
          archive_dir (fold (archive_step a c') (map fst (log_dir ?s1)) ?s1) = archive_dir ?s1 \<and>
          printed (fold (archive_step a c') (map fst (log_dir ?s1)) ?s1) = printed ?s1"
      by simp
    with Inr s1 show ?thesis by (simp add: cleanup_old_logs_def)
  qed
qed

subsection \<open>The claims on \<open>cleanup_old_logs\<close>\<close>

text \<open>
  Claim C1. Whatever the clock reading, the retention period and the directories are,
  \<open>cleanup_old_logs\<close> leaves the file with the day's log filename where it is: after
  the call the log directory holds the same file under that name as before, and the
  archive directory holds under that name what it held before. The time of last
  modification of the file plays no part, so a backdated file stays as well.
\<close>

theorem active_log_file_is_never_archived:
  "map_of (log_dir (snd (cleanup_old_logs now log_filename days_to_keep s))) log_filename =
     map_of (log_dir s) log_filename \<and>
   map_of (archive_dir (snd (cleanup_old_logs now log_filename days_to_keep s))) log_filename =
     map_of (archive_dir s) log_filename"
proof (cases "cutoff_date now days_to_keep")
  case (Inl e)
  then show ?thesis by (simp add: cleanup_old_logs_def)
next
  case (Inr c)
  have "log_filename = log_filename \<or> \<not> endswith log_filename ''.log''" by simp
  from fold_untouched [OF this, of c "map fst (log_dir s)" s] Inr
  show ?thesis by (simp add: cleanup_old_logs_def)
qed

text \<open>
  C1 on the sample directory: the day's file was last written 31 days before the
  clock reading, which is older than the cutoff of seven days, and it is still in the log
  directory and not in the archive after the call.
\<close>

theorem active_log_file_is_never_archived_witness:
  "getmtime ex_old = Inr 63900187200000000 \<and>
   (63900187200000000 :: int) < ex_now - 7 * 86400000000 \<and>
   map_of (log_dir (snd (cleanup_old_logs ex_now (LOG_FILENAME ''2026-01-01'') 7 ex_fs)))
     (LOG_FILENAME ''2026-01-01'') = Some ex_old \<and>
   map_of (archive_dir (snd (cleanup_old_logs ex_now (LOG_FILENAME ''2026-01-01'') 7 ex_fs)))
     (LOG_FILENAME ''2026-01-01'') = None"
  using active_log_file_is_never_archived [of ex_now "LOG_FILENAME ''2026-01-01''" 7 ex_fs]
  by (simp add: ex_fs_def ex_old_def ex_now_def LOG_FILENAME_def)

text \<open>
  Claim C2 as stated fails. The file \<open>notes.txt\<close> is not the day's file and was last
  written before the cutoff, and the call leaves the directories as they were: the loop
  only looks at names that end in \<open>.log\<close>.
\<close>

theorem all_old_files_archived_counterexample:
  "map_of (log_dir ex_fs_txt) ''notes.txt'' = Some ex_old \<and>
   ''notes.txt'' \<noteq> LOG_FILENAME ''2026-01-01'' \<and>
   getmtime ex_old = Inr 63900187200000000 \<and>
   (63900187200000000 :: int) < ex_now - 7 * 86400000000 \<and>
   cleanup_old_logs ex_now (LOG_FILENAME ''2026-01-01'') 7 ex_fs_txt = (None, ex_fs_txt)"
  by code_simp

text \<open>
  Claim C2, amended. When the call returns, every file of the log directory whose name
  ends in \<open>.log\<close> and is not the day's filename, whose time of last modification can be
  read and is older than now minus the retention period, and whose move does not raise,
  is in the archive directory under its name and no longer in the log directory. A file
  whose name does not end in \<open>.log\<close> is left where it is.
\<close>

theorem stale_log_files_are_archived:
  assumes "cleanup_old_logs now a d s = (None, s')"
  shows "(endswith n ''.log'' \<and> n \<noteq> a \<and> map_of (log_dir s) n = Some f \<and>
          getmtime f = Inr t \<and> t < now - d * 86400000000 \<and> move f = None \<longrightarrow>
            map_of (log_dir s') n = None \<and> map_of (archive_dir s') n = Some f) \<and>
         (\<not> endswith k ''.log'' \<longrightarrow>
            map_of (log_dir s') k = map_of (log_dir s) k \<and>
            map_of (archive_dir s') k = map_of (archive_dir s) k)"
proof -
  let ?c = "now - d * 86400000000"
  note e = cleanup_old_logs_None [OF assms]
  have 1: "endswith n ''.log'' \<and> n \<noteq> a \<and> map_of (log_dir s) n = Some f \<and>
          getmtime f = Inr t \<and> t < ?c \<and> move f = None \<longrightarrow>
            map_of (log_dir s') n = None \<and> map_of (archive_dir s') n = Some f"
  proof
    assume h: "endswith n ''.log'' \<and> n \<noteq> a \<and> map_of (log_dir s) n = Some f \<and>
          getmtime f = Inr t \<and> t < ?c \<and> move f = None"
    then have st: "stale a ?c (log_dir s) n" by (simp add: stale_def)
    from h have m: "map_of (log_dir s) n = Some f" by simp
    then have i: "n \<in> set (map fst (log_dir s))" by (metis map_of_eq_None_iff option.distinct(1) set_map)
    from fold_moves [OF i st m] e
    show "map_of (log_dir s') n = None \<and> map_of (archive_dir s') n = Some f" by simp
  qed
  have 2: "\<not> endswith k ''.log'' \<longrightarrow>
            map_of (log_dir s') k = map_of (log_dir s) k \<and>
            map_of (archive_dir s') k = map_of (archive_dir s) k"
  proof
    assume "\<not> endswith k ''.log''"
    then have "k = a \<or> \<not> endswith k ''.log''" by simp
    from fold_untouched [OF this, of ?c "map fst (log_dir s)" s] e
    show "map_of (log_dir s') k = map_of (log_dir s) k \<and>
            map_of (archive_dir s') k = map_of (archive_dir s) k" by simp
  qed
  from 1 2 show ?thesis by simp
qed

text \<open>C2 as amended, on the sample directory: the older log is moved, the text file stays.\<close>

theorem stale_log_files_are_archived_witness:
  "cleanup_old_logs ex_now (LOG_FILENAME ''2026-01-01'') 7 ex_fs = (None, ex_fs_archived) \<and>
   endswith ''simulator_2025-12-01.log'' ''.log'' \<and>
   ''simulator_2025-12-01.log'' \<noteq> LOG_FILENAME ''2026-01-01'' \<and>
   map_of (log_dir ex_fs) ''simulator_2025-12-01.log'' = Some ex_old \<and>
   getmtime ex_old = Inr 63900187200000000 \<and>
   (63900187200000000 :: int) < ex_now - 7 * 86400000000 \<and>
   move ex_old = None \<and>
   map_of (log_dir ex_fs_archived) ''simulator_2025-12-01.log'' = None \<and>
   map_of (archive_dir ex_fs_archived) ''simulator_2025-12-01.log'' = Some ex_old \<and>
   \<not> endswith ''notes.txt'' ''.log'' \<and>
   map_of (log_dir ex_fs_archived) ''notes.txt'' = map_of (log_dir ex_fs) ''notes.txt'' \<and>
   map_of (archive_dir ex_fs_archived) ''notes.txt'' = map_of (archive_dir ex_fs) ''notes.txt''"
proof -
  have c: "cleanup_old_logs ex_now (LOG_FILENAME ''2026-01-01'') 7 ex_fs = (None, ex_fs_archived)"
    by code_simp
  have h: "endswith ''simulator_2025-12-01.log'' ''.log'' \<and>
   ''simulator_2025-12-01.log'' \<noteq> LOG_FILENAME ''2026-01-01'' \<and>
   map_of (log_dir ex_fs) ''simulator_2025-12-01.log'' = Some ex_old \<and>
   getmtime ex_old = Inr 63900187200000000 \<and>
   (63900187200000000 :: int) < ex_now - 7 * 86400000000 \<and>
   move ex_old = None"
    by (simp add: endswith_def LOG_FILENAME_def ex_fs_def ex_old_def ex_now_def)
  have k: "\<not> endswith ''notes.txt'' ''.log''" by (simp add: endswith_def)
  from stale_log_files_are_archived [OF c, of "''simulator_2025-12-01.log''" ex_old
      63900187200000000 "''notes.txt''"] c h k
  show ?thesis by simp
qed

text \<open>
  Claim C3 as stated fails. Each call reads the clock. The sample log was last written
  exactly seven days before the first reading: the first call leaves it in place, and a
  call one microsecond later archives it. So a second call in succession can change what
  the first call left.
\<close>

theorem idempotent_at_any_clock_counterexample:
  "cleanup_old_logs ex_now (LOG_FILENAME ''2026-01-01'') 7 ex_fs_edge = (None, ex_fs_edge) \<and>
   cleanup_old_logs (ex_now + 1) (LOG_FILENAME ''2026-01-01'') 7 ex_fs_edge =
     (None, ex_fs_edge_archived) \<and>
   archive_dir ex_fs_edge = [] \<and>
   archive_dir ex_fs_edge_archived = [(''simulator_2025-12-25.log'', ex_edge)]"
  by code_simp

text \<open>
  Claim C3, amended. For every starting state, a second call of \<open>cleanup_old_logs\<close>
  that reads the same clock value as the first leaves the log directory and the archive
  directory as the first call left them, and prints no further line. The same holds for
  a second call at another clock value when the first call returns and no file of the
  log directory has a time of last modification from the first cutoff up to, but not
  including, the second. (The answers of the operating system for a file are the same in
  both calls.)
\<close>

theorem cleanup_old_logs_is_idempotent:
  "(log_dir (snd (cleanup_old_logs now a d (snd (cleanup_old_logs now a d s)))) =
      log_dir (snd (cleanup_old_logs now a d s)) \<and>
    archive_dir (snd (cleanup_old_logs now a d (snd (cleanup_old_logs now a d s)))) =
      archive_dir (snd (cleanup_old_logs now a d s)) \<and>
    printed (snd (cleanup_old_logs now a d (snd (cleanup_old_logs now a d s)))) =
      printed (snd (cleanup_old_logs now a d s))) \<and>
   (fst (cleanup_old_logs now a d s) = None \<and>
    (\<forall>p\<in>set (log_dir s). \<forall>t. getmtime (snd p) = Inr t \<longrightarrow>
       t < now - d * 86400000000 \<or> now' - d * 86400000000 \<le> t) \<longrightarrow>
    log_dir (snd (cleanup_old_logs now' a d (snd (cleanup_old_logs now a d s)))) =
      log_dir (snd (cleanup_old_logs now a d s)) \<and>
    archive_dir (snd (cleanup_old_logs now' a d (snd (cleanup_old_logs now a d s)))) =
      archive_dir (snd (cleanup_old_logs now a d s)) \<and>
    printed (snd (cleanup_old_logs now' a d (snd (cleanup_old_logs now a d s)))) =
      printed (snd (cleanup_old_logs now a d s)))"
  using cleanup_old_logs_same_clock [of now a d s]
        cleanup_old_logs_later_clock [of now a d s now']
  by blast

text \<open>
  C3 as amended, on the sample directory: the first call archives one file; a second call
  at the same clock value changes nothing, and neither does one a microsecond later,
  since the files that are left were all written before the first cutoff.
\<close>

theorem cleanup_old_logs_is_idempotent_witness:
  "cleanup_old_logs ex_now (LOG_FILENAME ''2026-01-01'') 7 ex_fs = (None, ex_fs_archived) \<and>
   snd ` set (log_dir ex_fs) = {ex_old} \<and>
   getmtime ex_old = Inr 63900187200000000 \<and>
   (63900187200000000 :: int) < ex_now - 7 * 86400000000 \<and>
   log_dir (snd (cleanup_old_logs ex_now (LOG_FILENAME ''2026-01-01'') 7 ex_fs_archived)) =
     log_dir ex_fs_archived \<and>
   archive_dir (snd (cleanup_old_logs ex_now (LOG_FILENAME ''2026-01-01'') 7 ex_fs_archived)) =
     archive_dir ex_fs_archived \<and>
   log_dir (snd (cleanup_old_logs (ex_now + 1) (LOG_FILENAME ''2026-01-01'') 7 ex_fs_archived)) =
     log_dir ex_fs_archived \<and>
   archive_dir (snd (cleanup_old_logs (ex_now + 1) (LOG_FILENAME ''2026-01-01'') 7 ex_fs_archived)) =
     archive_dir ex_fs_archived"
proof -
  have c: "cleanup_old_logs ex_now (LOG_FILENAME ''2026-01-01'') 7 ex_fs = (None, ex_fs_archived)"
    by code_simp
  have h: "\<forall>p\<in>set (log_dir ex_fs). \<forall>t. getmtime (snd p) = Inr t \<longrightarrow>
       t < ex_now - 7 * 86400000000 \<or> ex_now + 1 - 7 * 86400000000 \<le> t"
    by (simp add: ex_fs_def ex_old_def ex_now_def)
  have f: "snd ` set (log_dir ex_fs) = {ex_old} \<and>
           getmtime ex_old = Inr 63900187200000000 \<and>
           (63900187200000000 :: int) < ex_now - 7 * 86400000000"
    by (simp add: ex_fs_def ex_old_def ex_now_def)
  from cleanup_old_logs_is_idempotent
         [of ex_now "LOG_FILENAME ''2026-01-01''" 7 ex_fs "ex_now + 1"] c h
  have "log_dir (snd (cleanup_old_logs ex_now (LOG_FILENAME ''2026-01-01'') 7 ex_fs_archived)) =
     log_dir ex_fs_archived \<and>
   archive_dir (snd (cleanup_old_logs ex_now (LOG_FILENAME ''2026-01-01'') 7 ex_fs_archived)) =
     archive_dir ex_fs_archived \<and>
   log_dir (snd (cleanup_old_logs (ex_now + 1) (LOG_FILENAME ''2026-01-01'') 7 ex_fs_archived)) =
     log_dir ex_fs_archived \<and>
   archive_dir (snd (cleanup_old_logs (ex_now + 1) (LOG_FILENAME ''2026-01-01'') 7 ex_fs_archived)) =
     archive_dir ex_fs_archived"
    by simp
  with c f show ?thesis by blast
qed

section \<open>Properties of the simulator\<close>

subsection \<open>Logger and generator\<close>

lemma emit_DEBUG [simp]: "emit DEBUG msg tr = tr"
  by (simp add: emit_def DEBUG_def LOG_LEVEL_def INFO_def)

lemma emit_logged:
  "emit INFO msg tr = tr @ [(INFO, msg)]"
  "emit WARNING msg tr = tr @ [(WARNING, msg)]"
  "emit ERROR msg tr = tr @ [(ERROR, msg)]"
  "emit CRITICAL msg tr = tr @ [(CRITICAL, msg)]"
  by (simp_all add: emit_def LOG_LEVEL_def INFO_def WARNING_def ERROR_def CRITICAL_def)

lemma trace_logger: "trace (logger lvl msg st) = emit lvl msg (trace st)"
  by (simp add: logger_def)

lemma connects_logger [simp]: "connects (logger lvl msg st) = connects st"
  by (simp add: logger_def)

lemma customers_logger [simp]: "customers_col (logger lvl msg st) = customers_col st"
  by (simp add: logger_def)

lemma claims_logger [simp]: "claims_col (logger lvl msg st) = claims_col st"
  by (simp add: logger_def)

lemma generate_trace: "snd (generate_insurance_data r tr) = tr"
  by (simp add: generate_insurance_data_def Let_def)

lemma choice_in: "xs \<noteq> [] \<Longrightarrow> choice xs k \<in> set xs"
  by (simp add: choice_def)


lemma generate_policy_type:
  "policy_type (fst (fst (generate_insurance_data r tr))) \<in> {''Auto'', ''Home'', ''Health''}"
  using choice_in [of "[''Auto'', ''Home'', ''Health'']" "r_policy r"]
  by (simp add: generate_insurance_data_def Let_def)

subsection \<open>The generated amount\<close>











lemma ex_customer_id: "str_int (randint 100 999 23) = ''123''"
  by code_simp

lemma ex_policy_type: "choice [''Auto'', ''Home'', ''Health''] 4 = ''Home''"
  by (simp add: choice_def)

lemma ex_generated_customer: "fst (fst (generate_insurance_data ex_draws tr)) = ex_customer"
  by (simp add: generate_insurance_data_def Let_def ex_draws_def ex_customer_def
      ex_customer_id ex_policy_type)

subsection \<open>Configuration and start\<close>

lemma load_missing:
  assumes "env ''MONGO_URI'' = None"
  shows "fst (load_configuration env tr) =
           Inl (ValueError ''MONGO_URI environment variable is not set.'')"
  using assms by (simp add: load_configuration_def Let_def split: option.splits prod.splits)

lemma load_sleep_time_refused:
  assumes "env ''SLEEP_TIME'' = Some v" and "py_int v = None"
  shows "(WARNING, ''SLEEP_TIME in .env is not an integer. Defaulting to 5 seconds.'')
           \<in> set (snd (load_configuration env tr)) \<and>
         (\<forall>uri. env ''MONGO_URI'' = Some uri \<and> uri \<noteq> [] \<longrightarrow>
            fst (load_configuration env tr) =
              Inr (uri, 5,
                   case env ''MONGO_DB_NAME'' of
                     None \<Rightarrow> ''insurance-pipeline''
                   | Some d \<Rightarrow> d))"
  using assms
  by (auto simp: load_configuration_def Let_def emit_logged split: option.splits)

lemma load_sleep_time_abc:
  "load_configuration ex_env_abc [] =
     (Inr (''mongodb://localhost'', 5, ''insurance-pipeline''),
      [(WARNING, ''SLEEP_TIME in .env is not an integer. Defaulting to 5 seconds.''),
       (INFO, ''Configuration loaded successfully.'')])"
  by code_simp

lemma startup_missing:
  assumes "environ w ''MONGO_URI'' = None"
  shows "connects (snd (startup w st)) = connects st \<and>
         (\<exists>m. fst (startup w st) = Raised (ValueError m))"
proof -
  obtain r tr where l: "load_configuration (environ w) (trace st) = (r, tr)"
    by (cases "load_configuration (environ w) (trace st)")
  with load_missing [of "environ w" "trace st"] assms
  have "r = Inl (ValueError ''MONGO_URI environment variable is not set.'')" by simp
  with l show ?thesis by (simp add: startup_def)
qed

lemma main_missing:
  assumes "environ w ''MONGO_URI'' = None"
  shows "connects (snd (snd (main w))) = []"
proof -
  obtain x s where sl: "setup_logger (makedirs_raises w) (open_raises w) (clock w)
      (LOG_FILENAME (today w)) (files w) = (x, s)"
    by (cases "setup_logger (makedirs_raises w) (open_raises w) (clock w)
      (LOG_FILENAME (today w)) (files w)")
  show ?thesis
  proof (cases x)
    case (Some e)
    with sl show ?thesis by (simp add: main_def)
  next
    case None
    let ?st = "logger INFO banner_start
      \<lparr>customers_col = db_customers w, claims_col = db_claims w, trace = logged s,
       connects = []\<rparr>"
    from startup_missing [OF assms, of ?st] obtain m where
      c: "connects (snd (startup w ?st)) = []"
      and f: "fst (startup w ?st) = Raised (ValueError m)" by auto
    obtain st' where "startup w ?st = (Raised (ValueError m), st')"
      using f by (cases "startup w ?st") auto
    with c None sl show ?thesis by (simp add: main_def)
  qed
qed

lemma startup_connected:
  assumes "load_configuration (environ w) (trace st) = (Inr (u, sl, db), tr)"
    and "connect_raises w = None"
  shows "\<exists>st1. startup w st = run_simulation sl (ticks w) st1"
proof -
  have "startup w st =
        run_simulation sl (ticks w)
          (logger INFO ''Successfully connected to MongoDB Atlas.''
             ((logger INFO ''Attempting to connect to MongoDB Atlas...'' (st\<lparr>trace := tr\<rparr>))
                \<lparr>connects := connects (st\<lparr>trace := tr\<rparr>) @ [u]\<rparr>))"
    using assms by (simp add: startup_def setup_mongo_connection_def Let_def)
  then show ?thesis by blast
qed

subsection \<open>The inner \<open>try\<close>\<close>

lemma insert_block_customer_raises:
  "raised (customer_insert t) = Some e \<Longrightarrow>
   insert_block t cust clm st =
     (Some e, st\<lparr>customers_col := insert_one (customers_col st) cust (customer_insert t)\<rparr>)"
  by (simp add: insert_block_def Let_def)

lemma insert_block_claim_raises:
  "raised (customer_insert t) = None \<Longrightarrow> raised (claim_insert t) = Some e \<Longrightarrow>
   insert_block t cust clm st =
     (Some e, st\<lparr>customers_col := insert_one (customers_col st) cust (customer_insert t),
                 claims_col := insert_one (claims_col st) clm (claim_insert t)\<rparr>)"
  by (simp add: insert_block_def Let_def)

lemma insert_block_customers:
  "customers_col (snd (insert_block t cust clm st)) =
     insert_one (customers_col st) cust (customer_insert t)"
  by (simp add: insert_block_def Let_def split: option.splits)

lemma try_insert_dup:
  "insert_block t cust clm st = (Some (DuplicateKeyError m), st1) \<Longrightarrow>
   try_insert t cust clm st = (None, logger WARNING (dup_msg m) st1)"
  by (simp add: try_insert_def dup_msg_def)

lemma try_insert_duplicate:
  assumes "raised (customer_insert t) = Some (DuplicateKeyError m) \<or>
           (raised (customer_insert t) = None \<and>
            raised (claim_insert t) = Some (DuplicateKeyError m))"
  shows "fst (try_insert t cust clm st) = None \<and>
         trace (snd (try_insert t cust clm st)) = trace st @ [(WARNING, dup_msg m)]"
proof -
  from assms obtain st1 where b: "insert_block t cust clm st = (Some (DuplicateKeyError m), st1)"
    and tr: "trace st1 = trace st"
    using insert_block_customer_raises [of t "DuplicateKeyError m" cust clm st]
          insert_block_claim_raises [of t "DuplicateKeyError m" cust clm st]
    by auto
  show ?thesis by (simp add: try_insert_dup [OF b] logger_def emit_logged tr)
qed

lemma try_insert_cols:
  "customers_col (snd (try_insert t cust clm st)) =
     customers_col (snd (insert_block t cust clm st)) \<and>
   claims_col (snd (try_insert t cust clm st)) = claims_col (snd (insert_block t cust clm st))"
proof -
  obtain x st1 where b: "insert_block t cust clm st = (x, st1)" by (metis surj_pair)
  show ?thesis
  proof (cases x)
    case None
    with b show ?thesis by (simp add: try_insert_def)
  next
    case (Some e)
    with b show ?thesis by (cases e) (simp_all add: try_insert_def)
  qed
qed

lemma try_insert_catches:
  assumes "insert_block t cust clm st = (Some e, st1)" and "is_Exception e"
  shows "fst (try_insert t cust clm st) = None"
  using assms by (cases e) (simp_all add: try_insert_def)

lemma try_insert_claim_fails:
  assumes "stored (customer_insert t)" and "raised (customer_insert t) = None"
    and "\<not> stored (claim_insert t)" and "raised (claim_insert t) = Some e"
    and "is_Exception e"
  shows "fst (try_insert t cust clm st) = None \<and>
         customers_col (snd (try_insert t cust clm st)) = customers_col st @ [cust] \<and>
         claims_col (snd (try_insert t cust clm st)) = claims_col st"
proof -
  note b = insert_block_claim_raises [OF assms(2) assms(4), of cust clm st]
  have 1: "fst (try_insert t cust clm st) = None" using try_insert_catches [OF b assms(5)] .
  have 2: "customers_col (snd (try_insert t cust clm st)) = customers_col st @ [cust]"
    using try_insert_cols [of t cust clm st] assms(1) by (simp add: b insert_one_def)
  have 3: "claims_col (snd (try_insert t cust clm st)) = claims_col st"
    using try_insert_cols [of t cust clm st] assms(3) by (simp add: b insert_one_def)
  from 1 2 3 show ?thesis by simp
qed

lemma try_insert_customers_grow:
  "\<exists>xs. customers_col (snd (try_insert t cust clm st)) = customers_col st @ xs"
  using try_insert_cols [of t cust clm st]
  by (simp add: insert_block_customers insert_one_def)

lemma try_insert_ok:
  assumes "raised (customer_insert t) = None" and "raised (claim_insert t) = None"
    and "customer_count_raises t = None" and "claim_count_raises t = None"
  shows "fst (try_insert t cust clm st) = None"
  using assms by (simp add: try_insert_def insert_block_def Let_def)

subsection \<open>One iteration and the loop\<close>

lemma tick_body_unfold:
  "tick_body sleep_time t st =
     (case try_insert t (fst (fst (generate_insurance_data (draws t) (trace st))))
                        (snd (fst (generate_insurance_data (draws t) (trace st)))) st of
        (Some e, st1) \<Rightarrow> (Some e, st1)
      | (None, st1) \<Rightarrow> (sleep sleep_time (sleep_raises t), st1))"
proof -
  obtain cust clm tr where g: "generate_insurance_data (draws t) (trace st) = ((cust, clm), tr)"
    by (metis surj_pair)
  have "tr = trace st" using generate_trace [of "draws t" "trace st"] g by simp
  with g show ?thesis by (simp add: tick_body_def)
qed

lemma tick_body_caught:
  assumes "fst (try_insert t (fst (fst (generate_insurance_data (draws t) (trace st))))
                        (snd (fst (generate_insurance_data (draws t) (trace st)))) st) = None"
  shows "tick_body sleep_time t st =
     (sleep sleep_time (sleep_raises t),
      snd (try_insert t (fst (fst (generate_insurance_data (draws t) (trace st))))
                        (snd (fst (generate_insurance_data (draws t) (trace st)))) st))"
proof -
  obtain x st1 where
    e: "try_insert t (fst (fst (generate_insurance_data (draws t) (trace st))))
                     (snd (fst (generate_insurance_data (draws t) (trace st)))) st = (x, st1)"
    by (metis surj_pair)
  with assms have "x = None" by simp
  with e show ?thesis by (simp add: tick_body_unfold)
qed

lemma tick_body_state:
  "snd (tick_body sleep_time t st) =
   snd (try_insert t (fst (fst (generate_insurance_data (draws t) (trace st))))
                      (snd (fst (generate_insurance_data (draws t) (trace st)))) st)"
proof -
  obtain x st1 where
    e: "try_insert t (fst (fst (generate_insurance_data (draws t) (trace st))))
                     (snd (fst (generate_insurance_data (draws t) (trace st)))) st = (x, st1)"
    by (metis surj_pair)
  then show ?thesis by (cases x) (simp_all add: tick_body_unfold)
qed

lemma tick_body_reaches_sleep:
  assumes "raised (customer_insert t) = None" and "raised (claim_insert t) = None"
    and "customer_count_raises t = None" and "claim_count_raises t = None"
  shows "fst (tick_body sleep_time t st) = sleep sleep_time (sleep_raises t)"
  using tick_body_caught [OF try_insert_ok [OF assms]] by simp

lemma tick_body_customers_grow:
  "\<exists>xs. customers_col (snd (tick_body sleep_time t st)) = customers_col st @ xs"
  by (simp add: tick_body_state try_insert_customers_grow)

lemma while_true_step:
  assumes "fst (tick_body sleep_time t st) = None"
  shows "while_true sleep_time (t # ts) st =
         while_true sleep_time ts (snd (tick_body sleep_time t st))"
proof -
  obtain x st1 where e: "tick_body sleep_time t st = (x, st1)" by (metis surj_pair)
  with assms have "x = None" by simp
  with e show ?thesis by simp
qed

lemma while_true_stop:
  assumes "fst (tick_body sleep_time t st) = Some e"
  shows "while_true sleep_time (t # ts) st = tick_body sleep_time t st"
proof -
  obtain x st1 where b: "tick_body sleep_time t st = (x, st1)" by (metis surj_pair)
  with assms have "x = Some e" by simp
  with b show ?thesis by simp
qed

lemma while_true_customers_grow:
  "\<exists>xs. customers_col (snd (while_true sleep_time ts st)) = customers_col st @ xs"
proof (induction ts arbitrary: st)
  case Nil
  show ?case by simp
next
  case (Cons t ts)
  obtain x st1 where b: "tick_body sleep_time t st = (x, st1)" by (metis surj_pair)
  from tick_body_customers_grow [of sleep_time t st] b
  obtain xs where g: "customers_col st1 = customers_col st @ xs" by auto
  show ?case
  proof (cases x)
    case (Some e)
    with b g show ?thesis by simp
  next
    case None
    from Cons.IH [of st1] obtain ys where
      "customers_col (snd (while_true sleep_time ts st1)) = customers_col st1 @ ys" by blast
    with b g None show ?thesis by simp
  qed
qed

subsection \<open>\<open>run_simulation\<close> and \<open>__main__\<close>\<close>

lemma run_simulation_interrupt:
  assumes "while_true sleep_time ts
             (logger INFO (''Starting real-time simulation. Inserting data every ''
                @ str_int sleep_time @ '' seconds...'') st) = (Some KeyboardInterrupt, st1)"
  shows "run_simulation sleep_time ts st =
           (Returned, logger INFO ''Simulation stopped by user (Ctrl+C). Exiting.'' st1)"
  using assms by (simp add: run_simulation_def)

lemma run_simulation_exception:
  assumes "while_true sleep_time ts
             (logger INFO (''Starting real-time simulation. Inserting data every ''
                @ str_int sleep_time @ '' seconds...'') st) = (Some e, st1)"
    and "is_Exception e"
  shows "run_simulation sleep_time ts st =
           (Returned,
            logger CRITICAL
              (''A critical error occurred during the simulation loop: '' @ str_exc e) st1)"
  using assms by (cases e) (simp_all add: run_simulation_def)

lemma run_simulation_interrupted:
  assumes "\<And>st0. fst (while_true sleep_time ts st0) = Some KeyboardInterrupt"
  shows "fst (run_simulation sleep_time ts st) = Returned"
proof -
  let ?st0 = "logger INFO (''Starting real-time simulation. Inserting data every ''
                 @ str_int sleep_time @ '' seconds...'') st"
  have "while_true sleep_time ts ?st0 =
        (Some KeyboardInterrupt, snd (while_true sleep_time ts ?st0))"
    using assms [of ?st0] by (metis prod.collapse)
  from run_simulation_interrupt [OF this] show ?thesis by simp
qed

lemma run_simulation_never_raises_Exception:
  "fst (run_simulation sleep_time ts st) = Raised e \<Longrightarrow> \<not> is_Exception e"
proof -
  assume r: "fst (run_simulation sleep_time ts st) = Raised e"
  let ?st0 = "logger INFO (''Starting real-time simulation. Inserting data every ''
                 @ str_int sleep_time @ '' seconds...'') st"
  obtain x st1 where w: "while_true sleep_time ts ?st0 = (x, st1)" by (metis surj_pair)
  show "\<not> is_Exception e"
  proof (cases x)
    case None
    with w r show ?thesis by (simp add: run_simulation_def)
  next
    case (Some y)
    with w r show ?thesis
      by (cases y) (auto simp: run_simulation_def)
  qed
qed

lemma main_banner:
  assumes "fst (setup_logger (makedirs_raises w) (open_raises w) (clock w)
             (LOG_FILENAME (today w)) (files w)) = None"
    and "fst (main w) \<noteq> Looping"
  shows "trace (snd (snd (main w))) \<noteq> [] \<and>
         last (trace (snd (snd (main w)))) = (INFO, banner_end)"
proof -
  obtain s where sl: "setup_logger (makedirs_raises w) (open_raises w) (clock w)
             (LOG_FILENAME (today w)) (files w) = (None, s)"
    using assms(1) by (metis prod.collapse)
  let ?st = "logger INFO banner_start
    \<lparr>customers_col = db_customers w, claims_col = db_claims w, trace = logged s,
     connects = []\<rparr>"
  obtain r st' where su: "startup w ?st = (r, st')" by (metis surj_pair)
  show ?thesis
  proof (cases r)
    case Looping
    with sl su have "fst (main w) = Looping" by (simp add: main_def)
    with assms(2) show ?thesis by simp
  next
    case Returned
    with sl su show ?thesis by (simp add: main_def trace_logger emit_logged)
  next
    case (Raised e)
    with sl su show ?thesis
      by (cases e) (simp_all add: main_def trace_logger emit_logged)
  qed
qed

lemma main_setup_fails:
  assumes "makedirs_raises w = Some e"
  shows "fst (main w) = Raised e \<and> trace (snd (snd (main w))) = logged (files w)"
  using assms by (simp add: main_def setup_logger_def)

lemma main_returned:
  assumes "fst (setup_logger (makedirs_raises w) (open_raises w) (clock w)
             (LOG_FILENAME (today w)) (files w)) = None"
    and "\<And>st. fst (startup w st) = Returned"
  shows "fst (main w) = Returned"
proof -
  obtain s where sl: "setup_logger (makedirs_raises w) (open_raises w) (clock w)
             (LOG_FILENAME (today w)) (files w) = (None, s)"
    using assms(1) by (metis prod.collapse)
  let ?st = "logger INFO banner_start
    \<lparr>customers_col = db_customers w, claims_col = db_claims w, trace = logged s,
     connects = []\<rparr>"
  obtain st' where "startup w ?st = (Returned, st')"
    using assms(2) [of ?st] by (metis prod.collapse)
  with sl show ?thesis by (simp add: main_def)
qed

subsection \<open>The sample run\<close>

lemma py_int_0: "py_int ''0'' = Some 0"
  by code_simp

lemma ex_tick_interrupt_body: "fst (tick_body 0 ex_tick_interrupt st) = Some KeyboardInterrupt"
  using tick_body_reaches_sleep [of ex_tick_interrupt 0 st]
  by (simp add: ex_tick_interrupt_def sleep_def)

lemma ex_tick_ok_negative:
  "fst (tick_body (- 3) ex_tick_ok st) = Some (ValueError ''sleep length must be non-negative'')"
  using tick_body_reaches_sleep [of ex_tick_ok "- 3" st]
  by (simp add: ex_tick_ok_def sleep_def)

lemma ex_tick_dup_body: "fst (tick_body 0 ex_tick_dup st) = None"
proof -
  let ?c = "fst (fst (generate_insurance_data (draws ex_tick_dup) (trace st)))"
  let ?k = "snd (fst (generate_insurance_data (draws ex_tick_dup) (trace st)))"
  have "fst (try_insert ex_tick_dup ?c ?k st) = None"
    using try_insert_duplicate [of ex_tick_dup "''E11000''" ?c ?k st]
    by (simp add: ex_tick_dup_def)
  from tick_body_caught [OF this, of 0] show ?thesis by (simp add: ex_tick_dup_def sleep_def)
qed

lemma ex_ticks_interrupted:
  "fst (while_true 0 [ex_tick_dup, ex_tick_interrupt] st) = Some KeyboardInterrupt"
proof -
  have "while_true 0 [ex_tick_dup, ex_tick_interrupt] st =
        while_true 0 [ex_tick_interrupt] (snd (tick_body 0 ex_tick_dup st))"
    using ex_tick_dup_body by (rule while_true_step)
  also have "\<dots> = tick_body 0 ex_tick_interrupt (snd (tick_body 0 ex_tick_dup st))"
    using ex_tick_interrupt_body by (rule while_true_stop)
  finally show ?thesis by (simp add: ex_tick_interrupt_body)
qed

lemma ex_setup_logger:
  "fst (setup_logger None None ex_now (LOG_FILENAME ''2026-01-01'') ex_fs) = None"
  by code_simp

lemma ex_world_setup_logger:
  "fst (setup_logger (makedirs_raises ex_world) (open_raises ex_world) (clock ex_world)
           (LOG_FILENAME (today ex_world)) (files ex_world)) = None"
  using ex_setup_logger by (simp add: ex_world_def)

lemma ex_world_startup: "fst (startup ex_world st) = Returned"
proof -
  have l: "load_configuration (environ ex_world) (trace st) =
      (Inr (''mongodb://localhost'', 0, ''insurance-pipeline''),
       emit INFO ''Configuration loaded successfully.'' (trace st))"
    by (simp add: load_configuration_def Let_def ex_world_def ex_env_def py_int_0)
  have c: "connect_raises ex_world = None" by (simp add: ex_world_def)
  from startup_connected [OF l c] obtain st1 where
    s: "startup ex_world st = run_simulation 0 (ticks ex_world) st1" by blast
  have t: "ticks ex_world = [ex_tick_dup, ex_tick_interrupt]" by (simp add: ex_world_def)
  have "fst (run_simulation 0 [ex_tick_dup, ex_tick_interrupt] st1) = Returned"
    using ex_ticks_interrupted by (rule run_simulation_interrupted)
  with s t show ?thesis by simp
qed

lemma ex_world_returned: "fst (main ex_world) = Returned"
  using ex_world_setup_logger ex_world_startup by (rule main_returned)

section \<open>The claims on the simulator\<close>

subsection \<open>Configuration\<close>

text \<open>
  Claim C4, at the sleep interval \<open>-3\<close>, which is not a non-negative integer: the
  code does not fall back to 5 and logs no warning, it returns \<open>-3\<close>. With that
  interval the first call of \<open>time.sleep\<close> raises \<open>ValueError\<close>, the loop ends in its
  first iteration, and \<open>run_simulation\<close> logs a critical error and returns.
\<close>

theorem negative_sleep_time_is_accepted:
  "ex_env_negative ''SLEEP_TIME'' = Some ''-3'' \<and>
   load_configuration ex_env_negative [] =
     (Inr (''mongodb://localhost'', - 3, ''insurance-pipeline''),
      [(INFO, ''Configuration loaded successfully.'')]) \<and>
   fst (tick_body (- 3) ex_tick_ok ex_sys) =
     Some (ValueError ''sleep length must be non-negative'') \<and>
   while_true (- 3) [ex_tick_ok, ex_tick_ok] ex_sys = tick_body (- 3) ex_tick_ok ex_sys \<and>
   fst (run_simulation (- 3) [ex_tick_ok, ex_tick_ok] ex_sys) = Returned \<and>
   last (trace (snd (run_simulation (- 3) [ex_tick_ok, ex_tick_ok] ex_sys))) =
     (CRITICAL,
      ''A critical error occurred during the simulation loop: sleep length must be non-negative'')"
proof -
  have e: "ex_env_negative ''SLEEP_TIME'' = Some ''-3''" by (simp add: ex_env_negative_def)
  have l: "load_configuration ex_env_negative [] =
     (Inr (''mongodb://localhost'', - 3, ''insurance-pipeline''),
      [(INFO, ''Configuration loaded successfully.'')])"
    by code_simp
  have t: "fst (tick_body (- 3) ex_tick_ok ex_sys) =
      Some (ValueError ''sleep length must be non-negative'')"
    by (rule ex_tick_ok_negative)
  have w: "while_true (- 3) [ex_tick_ok, ex_tick_ok] ex_sys = tick_body (- 3) ex_tick_ok ex_sys"
    using t by (rule while_true_stop)
  let ?st0 = "logger INFO (''Starting real-time simulation. Inserting data every ''
                 @ str_int (- 3) @ '' seconds...'') ex_sys"
  have "fst (tick_body (- 3) ex_tick_ok ?st0) =
      Some (ValueError ''sleep length must be non-negative'')"
    by (rule ex_tick_ok_negative)
  then have "fst (while_true (- 3) [ex_tick_ok, ex_tick_ok] ?st0) =
      Some (ValueError ''sleep length must be non-negative'')"
    using while_true_stop [of "- 3" ex_tick_ok ?st0 _ "[ex_tick_ok]"] by simp
  then have "while_true (- 3) [ex_tick_ok, ex_tick_ok] ?st0 =
      (Some (ValueError ''sleep length must be non-negative''),
       snd (while_true (- 3) [ex_tick_ok, ex_tick_ok] ?st0))"
    by (metis prod.collapse)
  from run_simulation_exception [OF this]
  have r: "run_simulation (- 3) [ex_tick_ok, ex_tick_ok] ex_sys =
      (Returned,
       logger CRITICAL
         (''A critical error occurred during the simulation loop: ''
            @ str_exc (ValueError ''sleep length must be non-negative''))
         (snd (while_true (- 3) [ex_tick_ok, ex_tick_ok] ?st0)))"
    by simp
  have r1: "fst (run_simulation (- 3) [ex_tick_ok, ex_tick_ok] ex_sys) = Returned"
    by (simp add: r)
  have r2: "last (trace (snd (run_simulation (- 3) [ex_tick_ok, ex_tick_ok] ex_sys))) =
     (CRITICAL,
      ''A critical error occurred during the simulation loop: sleep length must be non-negative'')"
    by (simp add: r trace_logger emit_logged)
  from e l t w r1 r2 show ?thesis by blast
qed

text \<open>
  Claim C5. When \<open>MONGO_URI\<close> is absent, \<open>load_configuration\<close> raises the
  \<open>ValueError\<close> that \<open>__main__\<close> reports as the configuration error, and in the whole
  run of the program no client is opened.
\<close>

theorem missing_uri_fails_before_any_connection:
  assumes "environ w ''MONGO_URI'' = None"
  shows "fst (load_configuration (environ w) tr) =
           Inl (ValueError ''MONGO_URI environment variable is not set.'') \<and>
         connects (snd (snd (main w))) = []"
  using load_missing [of "environ w" tr] main_missing [of w] assms by simp

text \<open>C5 on the sample run without a connection string.\<close>

theorem missing_uri_fails_before_any_connection_witness:
  "environ ex_world_no_uri ''MONGO_URI'' = None \<and>
   fst (load_configuration (environ ex_world_no_uri) []) =
     Inl (ValueError ''MONGO_URI environment variable is not set.'') \<and>
   connects (snd (snd (main ex_world_no_uri))) = []"
proof -
  have h: "environ ex_world_no_uri ''MONGO_URI'' = None"
    by (simp add: ex_world_no_uri_def ex_env_no_uri_def)
  from missing_uri_fails_before_any_connection [OF h, of "[]"] h show ?thesis by simp
qed

subsection \<open>The loop\<close>

text \<open>
  Claim C6. In an iteration in which an insert raises a duplicate-key error, the inner
  \<open>try\<close> catches it: the only record added to the log is the warning, the iteration
  goes on to \<open>time.sleep\<close>, and nothing but that call can still raise in it. When
  \<open>time.sleep\<close> returns, the loop runs the next iteration.
\<close>

theorem duplicate_key_is_logged_and_the_loop_goes_on:
  assumes "raised (customer_insert t) = Some (DuplicateKeyError m) \<or>
           (raised (customer_insert t) = None \<and>
            raised (claim_insert t) = Some (DuplicateKeyError m))"
  shows "fst (tick_body sleep_time t st) = sleep sleep_time (sleep_raises t) \<and>
         trace (snd (tick_body sleep_time t st)) = trace st @ [(WARNING, dup_msg m)] \<and>
         (sleep sleep_time (sleep_raises t) = None \<longrightarrow>
            while_true sleep_time (t # ts) st =
              while_true sleep_time ts (snd (tick_body sleep_time t st)))"
proof -
  let ?c = "fst (fst (generate_insurance_data (draws t) (trace st)))"
  let ?k = "snd (fst (generate_insurance_data (draws t) (trace st)))"
  from try_insert_duplicate [OF assms, of ?c ?k st]
  have n: "fst (try_insert t ?c ?k st) = None"
    and tr: "trace (snd (try_insert t ?c ?k st)) = trace st @ [(WARNING, dup_msg m)]"
    by simp_all
  have b: "tick_body sleep_time t st =
           (sleep sleep_time (sleep_raises t), snd (try_insert t ?c ?k st))"
    using tick_body_caught [OF n] .
  have 1: "fst (tick_body sleep_time t st) = sleep sleep_time (sleep_raises t)"
    by (simp add: b)
  have 2: "trace (snd (tick_body sleep_time t st)) = trace st @ [(WARNING, dup_msg m)]"
    by (simp add: b tr)
  have 3: "sleep sleep_time (sleep_raises t) = None \<longrightarrow>
            while_true sleep_time (t # ts) st =
              while_true sleep_time ts (snd (tick_body sleep_time t st))"
  proof
    assume "sleep sleep_time (sleep_raises t) = None"
    then have "fst (tick_body sleep_time t st) = None" using 1 by simp
    then show "while_true sleep_time (t # ts) st =
               while_true sleep_time ts (snd (tick_body sleep_time t st))"
      by (rule while_true_step)
  qed
  from 1 2 3 show ?thesis by blast
qed

text \<open>C6 on the first sample iteration, in which the claim insert raises the error.\<close>

theorem duplicate_key_is_logged_and_the_loop_goes_on_witness:
  "raised (customer_insert ex_tick_dup) = None \<and>
   raised (claim_insert ex_tick_dup) = Some (DuplicateKeyError ''E11000'') \<and>
   sleep 0 (sleep_raises ex_tick_dup) = None \<and>
   fst (tick_body 0 ex_tick_dup ex_sys) = None \<and>
   trace (snd (tick_body 0 ex_tick_dup ex_sys)) = [(WARNING, dup_msg ''E11000'')] \<and>
   while_true 0 [ex_tick_dup, ex_tick_interrupt] ex_sys =
     while_true 0 [ex_tick_interrupt] (snd (tick_body 0 ex_tick_dup ex_sys))"
proof -
  have h: "raised (customer_insert ex_tick_dup) = None \<and>
           raised (claim_insert ex_tick_dup) = Some (DuplicateKeyError ''E11000'')"
    by (simp add: ex_tick_dup_def)
  have s: "sleep 0 (sleep_raises ex_tick_dup) = None"
    by (simp add: ex_tick_dup_def sleep_def)
  have e: "trace ex_sys = []" by (simp add: ex_sys_def)
  from duplicate_key_is_logged_and_the_loop_goes_on
         [of ex_tick_dup "''E11000''" 0 ex_sys "[ex_tick_interrupt]"] h s e
  show ?thesis by (simp del: while_true.simps)
qed

text \<open>
  Claim C7 as stated fails. When \<open>setup_logger\<close> raises (here \<open>os.makedirs\<close> is
  refused), the exception leaves the program before the \<open>try\<close> is entered: nothing is
  logged, also no termination banner.
\<close>

theorem setup_logger_failure_counterexample:
  "fst (main ex_world_no_dir) = Raised (OSError ''[Errno 13] Permission denied'') \<and>
   trace (snd (snd (main ex_world_no_dir))) = []"
  using main_setup_fails [of ex_world_no_dir "OSError ''[Errno 13] Permission denied''"]
  by (simp add: ex_world_no_dir_def ex_world_def ex_fs_def)

text \<open>
  Claim C7, amended. When a \<open>KeyboardInterrupt\<close> leaves the loop, \<open>run_simulation\<close>
  logs that the simulation was stopped by the user and returns normally. On every path
  of the program on which \<open>setup_logger\<close> has returned and the program ends (success,
  interrupt, configuration or connection error, any other exception), the termination
  banner is the last record logged.
\<close>

theorem interrupt_returns_normally_and_banner_is_logged:
  "(while_true sleep_time ts
      (logger INFO (''Starting real-time simulation. Inserting data every '' @ str_int sleep_time
                      @ '' seconds...'') st) = (Some KeyboardInterrupt, st1) \<longrightarrow>
    run_simulation sleep_time ts st =
      (Returned, logger INFO ''Simulation stopped by user (Ctrl+C). Exiting.'' st1)) \<and>
   (fst (setup_logger (makedirs_raises w) (open_raises w) (clock w)
           (LOG_FILENAME (today w)) (files w)) = None \<and>
    fst (main w) \<noteq> Looping \<longrightarrow>
    trace (snd (snd (main w))) \<noteq> [] \<and>
    last (trace (snd (snd (main w)))) = (INFO, banner_end))"
  using run_simulation_interrupt [of sleep_time ts st st1] main_banner [of w] by blast

text \<open>
  C7 as amended, on the sample run: the interrupt during the sleep of an iteration ends
  \<open>run_simulation\<close> normally, and the program ends with the banner.
\<close>

theorem interrupt_returns_normally_and_banner_is_logged_witness:
  "fst (while_true 0 [ex_tick_interrupt]
      (logger INFO (''Starting real-time simulation. Inserting data every '' @ str_int 0
                      @ '' seconds...'') ex_sys)) = Some KeyboardInterrupt \<and>
   fst (run_simulation 0 [ex_tick_interrupt] ex_sys) = Returned \<and>
   last (trace (snd (run_simulation 0 [ex_tick_interrupt] ex_sys))) =
     (INFO, ''Simulation stopped by user (Ctrl+C). Exiting.'') \<and>
   fst (setup_logger (makedirs_raises ex_world) (open_raises ex_world) (clock ex_world)
           (LOG_FILENAME (today ex_world)) (files ex_world)) = None \<and>
   fst (main ex_world) = Returned \<and>
   last (trace (snd (snd (main ex_world)))) = (INFO, banner_end)"
proof -
  let ?st0 = "logger INFO (''Starting real-time simulation. Inserting data every '' @ str_int 0
                      @ '' seconds...'') ex_sys"
  have f: "fst (while_true 0 [ex_tick_interrupt] ?st0) = Some KeyboardInterrupt"
    using while_true_stop [where ts = "[]", OF ex_tick_interrupt_body [of ?st0]]
    by (simp add: ex_tick_interrupt_body del: while_true.simps)
  then have h: "while_true 0 [ex_tick_interrupt] ?st0 =
      (Some KeyboardInterrupt, snd (while_true 0 [ex_tick_interrupt] ?st0))"
    by (metis prod.collapse)
  note g = ex_world_setup_logger
  note m = ex_world_returned
  from interrupt_returns_normally_and_banner_is_logged
         [of 0 "[ex_tick_interrupt]" ex_sys "snd (while_true 0 [ex_tick_interrupt] ?st0)" ex_world]
       f h g m
  show ?thesis by (simp add: trace_logger emit_logged del: while_true.simps)
qed

subsection \<open>Generated records\<close>

text \<open>
  Claim C8. In every pair that \<open>generate_insurance_data\<close> returns, the customer
  identifier stored in the claim is the customer identifier of the customer.
\<close>

theorem claim_refers_to_its_customer:
  "claim_customer_id (snd (fst (generate_insurance_data r tr))) =
   customer_id (fst (fst (generate_insurance_data r tr)))"
  by (simp add: generate_insurance_data_def Let_def)

text \<open>C8 on the sample draws: both identifiers are \<open>CUST-123\<close>.\<close>

theorem claim_refers_to_its_customer_witness:
  "customer_id (fst (fst (generate_insurance_data ex_draws []))) = ''CUST-123'' \<and>
   claim_customer_id (snd (fst (generate_insurance_data ex_draws []))) = ''CUST-123''"
proof -
  have c: "customer_id (fst (fst (generate_insurance_data ex_draws []))) = ''CUST-123''"
    by (simp add: ex_generated_customer ex_customer_def)
  from claim_refers_to_its_customer [of ex_draws "[]"] c show ?thesis by simp
qed




subsection \<open>No rollback\<close>

text \<open>
  Claim C10. In an iteration in which the store takes the customer and then refuses the
  claim with an exception, the customer stays in its collection and the claims are as
  before; the exception is caught by the inner \<open>try\<close>, so the iteration goes on to
  \<open>time.sleep\<close> and, when \<open>time.sleep\<close> returns, the loop runs the next iteration.
  However the loop goes on, the customer is still in the collection afterwards.
\<close>

theorem customer_stays_when_the_claim_insert_fails:
  assumes "stored (customer_insert t)" and "raised (customer_insert t) = None"
    and "\<not> stored (claim_insert t)" and "raised (claim_insert t) = Some e"
    and "is_Exception e"
  shows "fst (tick_body sleep_time t st) = sleep sleep_time (sleep_raises t) \<and>
         customers_col (snd (tick_body sleep_time t st)) =
           customers_col st @ [fst (fst (generate_insurance_data (draws t) (trace st)))] \<and>
         claims_col (snd (tick_body sleep_time t st)) = claims_col st \<and>
         fst (fst (generate_insurance_data (draws t) (trace st)))
           \<in> set (customers_col (snd (while_true sleep_time (t # ts) st))) \<and>
         (sleep sleep_time (sleep_raises t) = None \<longrightarrow>
            while_true sleep_time (t # ts) st =
              while_true sleep_time ts (snd (tick_body sleep_time t st)))"
proof -
  let ?c = "fst (fst (generate_insurance_data (draws t) (trace st)))"
  let ?k = "snd (fst (generate_insurance_data (draws t) (trace st)))"
  from try_insert_claim_fails [OF assms, of ?c ?k st]
  have n: "fst (try_insert t ?c ?k st) = None"
    and cu: "customers_col (snd (try_insert t ?c ?k st)) = customers_col st @ [?c]"
    and cl: "claims_col (snd (try_insert t ?c ?k st)) = claims_col st"
    by simp_all
  have b: "tick_body sleep_time t st =
           (sleep sleep_time (sleep_raises t), snd (try_insert t ?c ?k st))"
    using tick_body_caught [OF n] .
  have 1: "fst (tick_body sleep_time t st) = sleep sleep_time (sleep_raises t)"
    by (simp add: b)
  have 2: "customers_col (snd (tick_body sleep_time t st)) = customers_col st @ [?c]"
    by (simp add: b cu)
  have 3: "claims_col (snd (tick_body sleep_time t st)) = claims_col st"
    by (simp add: b cl)
  have 4: "?c \<in> set (customers_col (snd (while_true sleep_time (t # ts) st)))"
  proof (cases "fst (tick_body sleep_time t st)")
    case (Some x)
    then have "while_true sleep_time (t # ts) st = tick_body sleep_time t st"
      by (rule while_true_stop)
    then show ?thesis using 2 by simp
  next
    case None
    then have w: "while_true sleep_time (t # ts) st =
                  while_true sleep_time ts (snd (tick_body sleep_time t st))"
      by (rule while_true_step)
    from while_true_customers_grow [of sleep_time ts "snd (tick_body sleep_time t st)"]
    obtain xs where
      "customers_col (snd (while_true sleep_time ts (snd (tick_body sleep_time t st)))) =
       customers_col (snd (tick_body sleep_time t st)) @ xs" by blast
    then show ?thesis using w 2 by simp
  qed
  have 5: "sleep sleep_time (sleep_raises t) = None \<longrightarrow>
            while_true sleep_time (t # ts) st =
              while_true sleep_time ts (snd (tick_body sleep_time t st))"
  proof
    assume "sleep sleep_time (sleep_raises t) = None"
    then have "fst (tick_body sleep_time t st) = None" using 1 by simp
    then show "while_true sleep_time (t # ts) st =
               while_true sleep_time ts (snd (tick_body sleep_time t st))"
      by (rule while_true_step)
  qed
  from 1 2 3 4 5 show ?thesis by blast
qed

text \<open>
  C10 on the first sample iteration: afterwards the store holds the customer
  \<open>CUST-123\<close> and no claim at all.
\<close>

theorem customer_stays_when_the_claim_insert_fails_witness:
  "stored (customer_insert ex_tick_dup) \<and> raised (customer_insert ex_tick_dup) = None \<and>
   \<not> stored (claim_insert ex_tick_dup) \<and>
   raised (claim_insert ex_tick_dup) = Some (DuplicateKeyError ''E11000'') \<and>
   is_Exception (DuplicateKeyError ''E11000'') \<and>
   sleep 0 (sleep_raises ex_tick_dup) = None \<and>
   fst (tick_body 0 ex_tick_dup ex_sys) = None \<and>
   customers_col (snd (tick_body 0 ex_tick_dup ex_sys)) = [ex_customer] \<and>
   claims_col (snd (tick_body 0 ex_tick_dup ex_sys)) = [] \<and>
   ex_customer
     \<in> set (customers_col (snd (while_true 0 [ex_tick_dup, ex_tick_interrupt] ex_sys))) \<and>
   while_true 0 [ex_tick_dup, ex_tick_interrupt] ex_sys =
     while_true 0 [ex_tick_interrupt] (snd (tick_body 0 ex_tick_dup ex_sys))"
proof -
  have h1: "stored (customer_insert ex_tick_dup)" by (simp add: ex_tick_dup_def)
  have h2: "raised (customer_insert ex_tick_dup) = None" by (simp add: ex_tick_dup_def)
  have h3: "\<not> stored (claim_insert ex_tick_dup)" by (simp add: ex_tick_dup_def)
  have h4: "raised (claim_insert ex_tick_dup) = Some (DuplicateKeyError ''E11000'')"
    by (simp add: ex_tick_dup_def)
  have h5: "is_Exception (DuplicateKeyError ''E11000'')" by simp
  have s: "sleep 0 (sleep_raises ex_tick_dup) = None"
    by (simp add: ex_tick_dup_def sleep_def)
  have c: "fst (fst (generate_insurance_data (draws ex_tick_dup) (trace ex_sys))) = ex_customer"
    by (simp add: ex_tick_dup_def ex_generated_customer)
  have e: "customers_col ex_sys = [] \<and> claims_col ex_sys = []" by (simp add: ex_sys_def)
  note r = customer_stays_when_the_claim_insert_fails
             [OF h1 h2 h3 h4 h5, of 0 ex_sys "[ex_tick_interrupt]"]
  from r have r1: "fst (tick_body 0 ex_tick_dup ex_sys) = sleep 0 (sleep_raises ex_tick_dup)"
    by blast
  from r have r2: "customers_col (snd (tick_body 0 ex_tick_dup ex_sys)) =
      customers_col ex_sys @ [fst (fst (generate_insurance_data (draws ex_tick_dup) (trace ex_sys)))]"
    by blast
  from r have r3: "claims_col (snd (tick_body 0 ex_tick_dup ex_sys)) = claims_col ex_sys"
    by blast
  from r have r4: "fst (fst (generate_insurance_data (draws ex_tick_dup) (trace ex_sys)))
      \<in> set (customers_col (snd (while_true 0 [ex_tick_dup, ex_tick_interrupt] ex_sys)))"
    by blast
  from r s have g5: "while_true 0 [ex_tick_dup, ex_tick_interrupt] ex_sys =
     while_true 0 [ex_tick_interrupt] (snd (tick_body 0 ex_tick_dup ex_sys))"
    by (simp del: while_true.simps)
  from r1 s have g1: "fst (tick_body 0 ex_tick_dup ex_sys) = None" by simp
  from r2 c e have g2: "customers_col (snd (tick_body 0 ex_tick_dup ex_sys)) = [ex_customer]"
    by simp
  from r3 e have g3: "claims_col (snd (tick_body 0 ex_tick_dup ex_sys)) = []" by simp
  from r4 have g4: "ex_customer
      \<in> set (customers_col (snd (while_true 0 [ex_tick_dup, ex_tick_interrupt] ex_sys)))"
    by (simp only: c)
  from h1 h2 h3 h4 h5 s g1 g2 g3 g4 g5 show ?thesis by blast
qed

end
